theory Spec2Isabelle
  imports Complex_Main "HOL-Library.AList" "HOL-Library.Multiset"
begin

section \<open>JavaScript values and strings\<close>

text \<open>
  The application is a React component (\<^verbatim>\<open>src/index.tsx\<close>, with two earlier
  variants of the same file). Its logic works on three kinds of data: strings returned by the
  completion service, values produced by \<^verbatim>\<open>JSON.parse\<close> and used at type
  \<^verbatim>\<open>any\<close>, and typed records (\<^verbatim>\<open>Headline\<close>,
  \<^verbatim>\<open>AnalysisResult\<close>, \<^verbatim>\<open>SpeechSynthesisVoice\<close>).

  Strings are character lists. Functions of the platform that are not code of the repository
  (\<^verbatim>\<open>JSON.parse\<close>, \<^verbatim>\<open>Date\<close> parsing, the clock, the
  speech device) are parameters of the functions that call them.
\<close>

datatype jsval =
    JUndefined
  | JNull
  | JBool bool
  | JNum rat
  | JStr string
  | JArr "jsval list"
  | JObj "(string \<times> jsval) list"

text \<open>
  An exception is a value. The source throws \<^verbatim>\<open>new Error(message)\<close>; reading a
  property of \<^verbatim>\<open>null\<close> or \<^verbatim>\<open>undefined\<close> and calling a missing
  method raise a \<^verbatim>\<open>TypeError\<close>, whose message is the engine's own.
\<close>

datatype js_error = Error string | TypeError

text \<open>\<^verbatim>\<open>String.prototype.indexOf\<close> for a one-character needle: \<open>-1\<close> when absent.\<close>

fun indexOf :: "string \<Rightarrow> char \<Rightarrow> int" where
  "indexOf [] c = -1"
| "indexOf (x # xs) c =
     (if x = c then 0
      else (let i = indexOf xs c in if i = -1 then -1 else i + 1))"

text \<open>\<^verbatim>\<open>String.prototype.lastIndexOf\<close>: the index of the last occurrence, \<open>-1\<close> when absent.\<close>

definition lastIndexOf :: "string \<Rightarrow> char \<Rightarrow> int" where
  "lastIndexOf s c =
     (let i = indexOf (rev s) c in if i = -1 then -1 else int (length s) - 1 - i)"

text \<open>
  \<^verbatim>\<open>String.prototype.substring(a, b)\<close>: both indices are clamped to the string and
  swapped when out of order.
\<close>

definition substring :: "string \<Rightarrow> int \<Rightarrow> int \<Rightarrow> string" where
  "substring s a b =
     (let n = int (length s);
          a' = max 0 (min a n);
          b' = max 0 (min b n);
          lo = min a' b';
          hi = max a' b'
      in take (nat (hi - lo)) (drop (nat lo) s))"

section \<open>JSON extraction\<close>

text \<open>
  \<^verbatim>\<open>
  function safeParseJson<T>(jsonString: string): T {
    try {
        const startIndex = jsonString.indexOf('{');
        const endIndex = jsonString.lastIndexOf('}');
        if (startIndex === -1 || endIndex === -1 || endIndex < startIndex) {
            throw new Error("Could not find a valid JSON object in the response.");
        }
        const jsonText = jsonString.substring(startIndex, endIndex + 1);
        return JSON.parse(jsonText) as T;
    } catch (e) {
        console.error("Failed to parse JSON response:", jsonString, e);
        throw new Error("The AI returned an invalid format. Please try again.");
    }
  };
  \<close>
  Both the inner \<^verbatim>\<open>throw\<close> and a \<^verbatim>\<open>SyntaxError\<close> of
  \<^verbatim>\<open>JSON.parse\<close> are caught and replaced by the one error below: the
  malformed-response error of the specification. \<^verbatim>\<open>JSON.parse\<close> is the
  parameter \<open>JSON_parse\<close>, \<open>None\<close> standing for its \<^verbatim>\<open>SyntaxError\<close>.
\<close>

definition MalformedResponse :: js_error where
  "MalformedResponse = Error ''The AI returned an invalid format. Please try again.''"

definition safeParseJson :: "(string \<Rightarrow> jsval option) \<Rightarrow> string \<Rightarrow> js_error + jsval" where
  "safeParseJson JSON_parse jsonString =
     (let startIndex = indexOf jsonString CHR ''{'';
          endIndex = lastIndexOf jsonString CHR ''}''
      in if startIndex = -1 \<or> endIndex = -1 \<or> endIndex < startIndex
         then Inl MalformedResponse
         else (case JSON_parse (substring jsonString startIndex (endIndex + 1)) of
                 None \<Rightarrow> Inl MalformedResponse
               | Some v \<Rightarrow> Inr v))"

section \<open>Values of type any\<close>

text \<open>
  The analysis pipeline reads the parsed responses at type \<^verbatim>\<open>any\<close>: it tests values
  for truthiness, reads properties that may be absent and copies objects with the spread
  operator. The functions below are these operations on \<open>jsval\<close>. A number is kept as a
  rational: the code only asks whether it is zero and whether a length is at least two. The keys
  of an object are taken to be distinct and the first binding of a key is the one read. The two
  operands of \<^verbatim>\<open>===\<close> in the pipeline come from different calls of
  \<^verbatim>\<open>JSON.parse\<close>, so an array or an object is never identical to the other operand.
\<close>

fun truthy :: "jsval \<Rightarrow> bool" where
  "truthy JUndefined = False"
| "truthy JNull = False"
| "truthy (JBool b) = b"
| "truthy (JNum n) = (n \<noteq> 0)"
| "truthy (JStr s) = (s \<noteq> [])"
| "truthy (JArr xs) = True"
| "truthy (JObj kvs) = True"

text \<open>\<^verbatim>\<open>a || b\<close>.\<close>

definition js_or :: "jsval \<Rightarrow> jsval \<Rightarrow> jsval" where
  "js_or a b = (if truthy a then a else b)"

text \<open>
  \<^verbatim>\<open>v.k\<close> for a value that is neither \<^verbatim>\<open>null\<close> nor
  \<^verbatim>\<open>undefined\<close>, and for the keys the code reads (\<^verbatim>\<open>title\<close>,
  \<^verbatim>\<open>source\<close>, \<^verbatim>\<open>publishedAt\<close>, \<^verbatim>\<open>length\<close> and the
  like; none of them is an inherited property of a string, an array or an object other than
  \<^verbatim>\<open>length\<close>).
\<close>

fun readProp :: "jsval \<Rightarrow> string \<Rightarrow> jsval" where
  "readProp (JObj kvs) k = (case map_of kvs k of Some v \<Rightarrow> v | None \<Rightarrow> JUndefined)"
| "readProp (JArr xs) k = (if k = ''length'' then JNum (of_nat (length xs)) else JUndefined)"
| "readProp (JStr s) k = (if k = ''length'' then JNum (of_nat (length s)) else JUndefined)"
| "readProp v k = JUndefined"

text \<open>\<^verbatim>\<open>v.k\<close> for any value: a \<^verbatim>\<open>TypeError\<close> on \<^verbatim>\<open>null\<close> and \<^verbatim>\<open>undefined\<close>.\<close>

definition getProp :: "jsval \<Rightarrow> string \<Rightarrow> js_error + jsval" where
  "getProp v k = (if v = JUndefined \<or> v = JNull then Inl TypeError else Inr (readProp v k))"

text \<open>
  \<^verbatim>\<open>`${v}`\<close>: a template literal converts the value to a string. A parsed object
  cannot hold a function, so an object with a key \<^verbatim>\<open>toString\<close> of its own hides
  the inherited method behind a value that cannot be called, \<^verbatim>\<open>valueOf\<close> gives no
  primitive either, and the conversion raises a \<^verbatim>\<open>TypeError\<close>. An array joins
  the strings of its elements, so it raises when one of them does. Every other value has a string.
  Only whether the conversion raises is modelled: no part of the pipeline depends on the text of a
  prompt.
\<close>

fun toStringThrows :: "jsval \<Rightarrow> bool" where
  "toStringThrows (JObj kvs) = (map_of kvs ''toString'' \<noteq> None)"
| "toStringThrows (JArr xs) = list_ex toStringThrows xs"
| "toStringThrows v = False"

text \<open>\<^verbatim>\<open>v[i]\<close> on the result of \<^verbatim>\<open>slice\<close>, an array or a string.\<close>

fun getIndex :: "jsval \<Rightarrow> nat \<Rightarrow> jsval" where
  "getIndex (JArr xs) i = (if i < length xs then xs ! i else JUndefined)"
| "getIndex (JStr s) i = (if i < length s then JStr [s ! i] else JUndefined)"
| "getIndex v i = JUndefined"

text \<open>
  \<^verbatim>\<open>v.slice(0, 2)\<close>: arrays and strings have the method; on anything else the call
  raises a \<^verbatim>\<open>TypeError\<close> (a parsed object cannot hold a function).
\<close>

fun slice02 :: "jsval \<Rightarrow> js_error + jsval" where
  "slice02 (JArr xs) = Inr (JArr (take 2 xs))"
| "slice02 (JStr s) = Inr (JStr (take 2 s))"
| "slice02 v = Inl TypeError"

text \<open>\<^verbatim>\<open>a === b\<close>.\<close>

fun strict_eq :: "jsval \<Rightarrow> jsval \<Rightarrow> bool" where
  "strict_eq JUndefined JUndefined = True"
| "strict_eq JNull JNull = True"
| "strict_eq (JBool a) (JBool b) = (a = b)"
| "strict_eq (JNum a) (JNum b) = (a = b)"
| "strict_eq (JStr a) (JStr b) = (a = b)"
| "strict_eq a b = False"

text \<open>
  \<^verbatim>\<open>{...v}\<close> copies the own enumerable properties: those of an object, the elements
  of an array and the characters of a string under their decimal indices, nothing for the other
  values.
\<close>

function show_nat :: "nat \<Rightarrow> string" where
  "show_nat n =
     (if n < 10 then [char_of (48 + n)]
      else show_nat (n div 10) @ [char_of (48 + n mod 10)])"
  by pat_completeness auto
termination
  by (relation "measure id") auto

fun spread :: "jsval \<Rightarrow> (string \<times> jsval) list" where
  "spread (JObj kvs) = kvs"
| "spread (JArr xs) = zip (map show_nat [0 ..< length xs]) xs"
| "spread (JStr s) = zip (map show_nat [0 ..< length s]) (map (\<lambda>c. JStr [c]) s)"
| "spread v = []"

section \<open>Speech session\<close>

text \<open>
  \<^verbatim>\<open>SpeechSynthesisVoice\<close>, as far as the code reads it, and the device
  \<^verbatim>\<open>window.speechSynthesis\<close>: whether it exists, and its \<^verbatim>\<open>speaking\<close>
  and \<^verbatim>\<open>pending\<close> flags, which \<^verbatim>\<open>cancel()\<close> clears by emptying the
  device's queue.
\<close>

record Voice =
  name :: string
  lang :: string
  localService :: bool
  voiceURI :: string

record synth_device =
  supported :: bool
  speaking :: bool
  pending :: bool

definition cancel :: "synth_device \<Rightarrow> synth_device" where
  "cancel d = d\<lparr>speaking := False, pending := False\<rparr>"

datatype speech_state = Stopped | Playing | Paused

text \<open>One entry of \<^verbatim>\<open>speechQueueRef.current.utterances\<close>.\<close>

record utterance =
  utteranceText :: string
  utteranceVoice :: "Voice option"
  utteranceCardId :: string

record speech_session =
  globalSpeechState :: speech_state
  currentlySpeakingCard :: "string option"
  utterances :: "utterance list"
  currentIndex :: nat
  synth :: synth_device

text \<open>
  \<^verbatim>\<open>
  const stopSpeech = () => {
    speechQueueRef.current = { utterances: [], currentIndex: 0 };
    if ('speechSynthesis' in window && (window.speechSynthesis.speaking || window.speechSynthesis.pending)) {
      window.speechSynthesis.cancel();
    }
    setGlobalSpeechState('stopped');
    setCurrentlySpeakingCard(null);
  };
  \<close>
\<close>

definition stopSpeech :: "speech_session \<Rightarrow> speech_session" where
  "stopSpeech s =
     (let s1 = s\<lparr>utterances := [], currentIndex := 0\<rparr>;
          s2 = (if supported (synth s1) \<and> (speaking (synth s1) \<or> pending (synth s1))
                then s1\<lparr>synth := cancel (synth s1)\<rparr> else s1)
      in s2\<lparr>globalSpeechState := Stopped, currentlySpeakingCard := None\<rparr>)"

text \<open>
  The earliest variant keeps the queue and the index in two refs and cancels whenever the device
  exists:
  \<^verbatim>\<open>
  const stopSpeech = () => {
    if ('speechSynthesis' in window) { window.speechSynthesis.cancel(); }
    setGlobalSpeechState('stopped');
    setCurrentlySpeakingCard(null);
    currentUtteranceIndexRef.current = 0;
    utteranceQueueRef.current = [];
  };
  \<close>
\<close>

definition stopSpeech_early :: "speech_session \<Rightarrow> speech_session" where
  "stopSpeech_early s =
     (let s1 = (if supported (synth s) then s\<lparr>synth := cancel (synth s)\<rparr> else s)
      in s1\<lparr>globalSpeechState := Stopped, currentlySpeakingCard := None,
             currentIndex := 0, utterances := []\<rparr>)"

section \<open>Voice selection\<close>

text \<open>\<^verbatim>\<open>String.prototype.startsWith\<close> and \<^verbatim>\<open>String.prototype.includes\<close>.\<close>

definition startsWith :: "string \<Rightarrow> string \<Rightarrow> bool" where
  "startsWith s p = (take (length p) s = p)"

fun str_includes :: "string \<Rightarrow> string \<Rightarrow> bool" where
  "str_includes [] p = (p = [])"
| "str_includes (c # cs) p = (startsWith (c # cs) p \<or> str_includes cs p)"

definition premiumNames :: "string list" where
  "premiumNames =
     [''Google US English'', ''Microsoft David - English (United States)'', ''Samantha'', ''Alex'']"

text \<open>
  \<^verbatim>\<open>
  for (const name of premiumNames) {
      const voice = vcs.find(v => v.name === name && v.lang === lang);
      if (voice) return voice;
  }
  \<close>
\<close>

fun firstPremium :: "Voice list \<Rightarrow> string list \<Rightarrow> Voice option" where
  "firstPremium vcs [] = None"
| "firstPremium vcs (n # ns) =
     (case find (\<lambda>v. name v = n \<and> lang v = ''en-US'') vcs of
        Some voice \<Rightarrow> Some voice
      | None \<Rightarrow> firstPremium vcs ns)"

text \<open>
  \<^verbatim>\<open>
  const getBestVoice = (vcs) => {
      if (!vcs || vcs.length === 0) return null;
      const lang = 'en-US';
      const premiumNames = [...];
      for (const name of premiumNames) { ... }
      const localVoice = vcs.find(v => v.lang === lang && v.localService);
      if (localVoice) return localVoice;
      const anyUSVoice = vcs.find(v => v.lang === lang);
      if (anyUSVoice) return anyUSVoice;
      return vcs.find(v => v.lang.startsWith('en')) || null;
  };
  \<close>
\<close>

definition getBestVoice :: "Voice list \<Rightarrow> Voice option" where
  "getBestVoice vcs =
     (if vcs = [] then None
      else case firstPremium vcs premiumNames of
             Some voice \<Rightarrow> Some voice
           | None \<Rightarrow>
               (case find (\<lambda>v. lang v = ''en-US'' \<and> localService v) vcs of
                  Some localVoice \<Rightarrow> Some localVoice
                | None \<Rightarrow>
                    (case find (\<lambda>v. lang v = ''en-US'') vcs of
                       Some anyUSVoice \<Rightarrow> Some anyUSVoice
                     | None \<Rightarrow> find (\<lambda>v. startsWith (lang v) ''en'') vcs)))"

record voice_state =
  voices :: "Voice list"
  selectedVoiceURI :: string

text \<open>
  The loader stores the list and a default selection:
  \<^verbatim>\<open>
  if (availableVoices.length > 0) {
      setVoices(availableVoices);
      const bestVoice = getBestVoice(availableVoices);
      if (bestVoice) { setSelectedVoiceURI(bestVoice.voiceURI); }
      else if (availableVoices.length > 0) { setSelectedVoiceURI(availableVoices[0].voiceURI); }
  }
  \<close>
  The voice selector of the page overwrites \<^verbatim>\<open>selectedVoiceURI\<close> with the user's
  choice.
\<close>

definition loadVoices :: "Voice list \<Rightarrow> voice_state \<Rightarrow> voice_state" where
  "loadVoices availableVoices vs =
     (case availableVoices of
        [] \<Rightarrow> vs
      | v0 # _ \<Rightarrow>
          vs\<lparr>voices := availableVoices,
             selectedVoiceURI :=
               (case getBestVoice availableVoices of
                  Some bestVoice \<Rightarrow> voiceURI bestVoice
                | None \<Rightarrow> voiceURI v0)\<rparr>)"

text \<open>
  At the start of a narration:
  \<^verbatim>\<open>const preferredVoice = voices.find(v => v.voiceURI === selectedVoiceURI);\<close>
\<close>

definition preferredVoice :: "voice_state \<Rightarrow> Voice option" where
  "preferredVoice vs = find (\<lambda>v. voiceURI v = selectedVoiceURI vs) (voices vs)"

text \<open>
  The earliest variant has no selection and runs the chain at the start of a narration:
  \<^verbatim>\<open>
  const preferredVoice = voices.find(voice => voice.name.includes('Google') && voice.lang === 'en-US')
    || voices.find(voice => voice.lang === 'en-US' && voice.localService)
    || voices.find(voice => voice.lang === 'en-US')
    || voices.find(voice => voice.lang.startsWith('en'))
    || null;
  \<close>
\<close>

definition preferredVoice_early :: "Voice list \<Rightarrow> Voice option" where
  "preferredVoice_early vcs =
     (case find (\<lambda>voice. str_includes (name voice) ''Google'' \<and> lang voice = ''en-US'') vcs of
        Some v \<Rightarrow> Some v
      | None \<Rightarrow>
          (case find (\<lambda>voice. lang voice = ''en-US'' \<and> localService voice) vcs of
             Some v \<Rightarrow> Some v
           | None \<Rightarrow>
               (case find (\<lambda>voice. lang voice = ''en-US'') vcs of
                  Some v \<Rightarrow> Some v
                | None \<Rightarrow> find (\<lambda>voice. startsWith (lang voice) ''en'') vcs)))"

section \<open>Analysis pipeline\<close>

text \<open>
  \<^verbatim>\<open>
  const normalizeArticle = (article: any) => {
      if (!article) return null;
      // The AI sometimes returns publication_date. Normalize it.
      const publishedAt = article.publishedAt || article.publication_date;
      if (!publishedAt) {
          console.warn("Article missing publication date:", article);
      }
      return {
          ...article,
          publishedAt: publishedAt || new Date().toISOString(), // Fallback to now if date is missing
      };
  };
  \<close>
  The function returns the article together with what it writes to the console; \<open>now\<close> is
  \<^verbatim>\<open>new Date().toISOString()\<close> at the time of the call.
\<close>

datatype console_entry = ConsoleWarn string jsval

definition normalizeArticle :: "string \<Rightarrow> jsval \<Rightarrow> jsval \<times> console_entry list" where
  "normalizeArticle now article =
     (if \<not> truthy article then (JNull, [])
      else (let publishedAt = js_or (readProp article ''publishedAt'') (readProp article ''publication_date'')
            in (JObj (AList.update ''publishedAt'' (js_or publishedAt (JStr now)) (spread article)),
                if \<not> truthy publishedAt
                then [ConsoleWarn ''Article missing publication date:'' article] else [])))"

text \<open>
  What the pipeline takes from the platform: \<^verbatim>\<open>JSON.parse\<close>, the clock at the
  first and at the second normalization of a run, and the comparison \<^verbatim>\<open>v >= 2\<close> for
  a \<^verbatim>\<open>length\<close> that is a string or an array (the language converts it to a number
  first).
\<close>

record platform =
  JSON_parse :: "string \<Rightarrow> jsval option"
  nowISO :: "nat \<Rightarrow> string"
  looseGe2 :: "jsval \<Rightarrow> bool"

definition ge2 :: "platform \<Rightarrow> jsval \<Rightarrow> bool" where
  "ge2 pf v =
     (case v of
        JNum n \<Rightarrow> 2 \<le> n
      | JStr s \<Rightarrow> looseGe2 pf v
      | JArr xs \<Rightarrow> looseGe2 pf v
      | _ \<Rightarrow> False)"

text \<open>
  The branch for an undifferentiated list. Building the prompt reads \<^verbatim>\<open>title\<close> and
  \<^verbatim>\<open>source\<close> of both articles, which throws on a \<^verbatim>\<open>null\<close> element,
  and converts each of the four values to a string, which throws on an object with a
  \<^verbatim>\<open>toString\<close> key of its own; the request is sent only when the prompt has been
  built. The reply of the classification request is a parameter (\<open>Inl\<close> when the request
  is rejected).
  \<^verbatim>\<open>
  const articlesToClassify = parsedResponse.articles.slice(0, 2);
  const classifyPrompt = `... Article A: { "title": "${articlesToClassify[0].title}",
      "source": "${articlesToClassify[0].source}" } Article B: ...`;
  const classifyResponse = await ai.current.models.generateContent({...});
  const classification = safeParseJson<{rightWingArticleSource: string}>(classifyResponse.text);
  const rightSource = classification.rightWingArticleSource;
  const articleA = articlesToClassify[0];
  const articleB = articlesToClassify[1];
  if (articleA.source === rightSource) {
      rightWingArticle = normalizeArticle(articleA);
      leftWingArticle = normalizeArticle(articleB);
  } else {
      rightWingArticle = normalizeArticle(articleB);
      leftWingArticle = normalizeArticle(articleA);
  }
  \<close>
\<close>

definition classifyArticles ::
  "platform \<Rightarrow> jsval \<Rightarrow> (js_error + string) \<Rightarrow> js_error + jsval \<times> jsval" where
  "classifyArticles pf articles classifyResponse =
     (case slice02 articles of Inl e \<Rightarrow> Inl e | Inr articlesToClassify \<Rightarrow>
      case getProp (getIndex articlesToClassify 0) ''title'' of Inl e \<Rightarrow> Inl e | Inr titleA \<Rightarrow>
      if toStringThrows titleA then Inl TypeError else
      case getProp (getIndex articlesToClassify 0) ''source'' of Inl e \<Rightarrow> Inl e | Inr sourceA \<Rightarrow>
      if toStringThrows sourceA then Inl TypeError else
      case getProp (getIndex articlesToClassify 1) ''title'' of Inl e \<Rightarrow> Inl e | Inr titleB \<Rightarrow>
      if toStringThrows titleB then Inl TypeError else
      case getProp (getIndex articlesToClassify 1) ''source'' of Inl e \<Rightarrow> Inl e | Inr sourceB \<Rightarrow>
      if toStringThrows sourceB then Inl TypeError else
      case classifyResponse of Inl e \<Rightarrow> Inl e | Inr classifyText \<Rightarrow>
      case safeParseJson (JSON_parse pf) classifyText of Inl e \<Rightarrow> Inl e | Inr classification \<Rightarrow>
      case getProp classification ''rightWingArticleSource'' of Inl e \<Rightarrow> Inl e | Inr rightSource \<Rightarrow>
        (let articleA = getIndex articlesToClassify 0;
             articleB = getIndex articlesToClassify 1
         in if strict_eq (readProp articleA ''source'') rightSource
            then Inr (fst (normalizeArticle (nowISO pf 0) articleA),
                      fst (normalizeArticle (nowISO pf 1) articleB))
            else Inr (fst (normalizeArticle (nowISO pf 0) articleB),
                      fst (normalizeArticle (nowISO pf 1) articleA))))"

text \<open>
  \<^verbatim>\<open>
  let rightWingArticle: any, leftWingArticle: any;
  if (parsedResponse.rightWingArticle && parsedResponse.leftWingArticle) {
      rightWingArticle = normalizeArticle(parsedResponse.rightWingArticle);
      leftWingArticle = normalizeArticle(parsedResponse.leftWingArticle);
  } else if (parsedResponse.articles && parsedResponse.articles.length >= 2) {
      ... (the branch above)
  }
  \<close>
  Both variables stay \<^verbatim>\<open>undefined\<close> when neither branch is taken.
\<close>

definition findArticles ::
  "platform \<Rightarrow> jsval \<Rightarrow> (js_error + string) \<Rightarrow> js_error + jsval \<times> jsval" where
  "findArticles pf parsedResponse classifyResponse =
     (case getProp parsedResponse ''rightWingArticle'' of Inl e \<Rightarrow> Inl e | Inr r \<Rightarrow>
      if truthy r \<and> truthy (readProp parsedResponse ''leftWingArticle'')
      then Inr (fst (normalizeArticle (nowISO pf 0) r),
                fst (normalizeArticle (nowISO pf 1) (readProp parsedResponse ''leftWingArticle'')))
      else if truthy (readProp parsedResponse ''articles'')
               \<and> ge2 pf (readProp (readProp parsedResponse ''articles'') ''length'')
      then classifyArticles pf (readProp parsedResponse ''articles'') classifyResponse
      else Inr (JUndefined, JUndefined))"

text \<open>
  \<^verbatim>\<open>
  if (!rightWingArticle || !leftWingArticle || !rightWingArticle.title || !leftWingArticle.title) {
    console.error("The AI failed to structure its response correctly ...", searchResponse.text);
    throw new Error("The AI could not find suitable left and right-leaning articles for this topic. Please try a different headline.");
  }
  \<close>
\<close>

definition ArticlesNotFound :: js_error where
  "ArticlesNotFound =
     Error ''The AI could not find suitable left and right-leaning articles for this topic. Please try a different headline.''"

text \<open>
  The completion service: whether the client exists, and the reply to each of the three requests
  of a run, \<open>Inl\<close> for a rejected request (taken to reject with an
  \<^verbatim>\<open>Error\<close>). The replies are parameters, whatever the prompts; a reply is read
  only after its prompt has been built. A reply is taken to carry a text: without one,
  \<open>safeParseJson\<close> catches the \<^verbatim>\<open>TypeError\<close> of
  \<^verbatim>\<open>indexOf\<close> and throws the same error as for a text without braces.
\<close>

record ai_service =
  clientReady :: bool
  searchReply :: "js_error + string"
  classifyReply :: "js_error + string"
  analysisReply :: "js_error + string"

text \<open>
  Step 3 of the source:
  \<^verbatim>\<open>
  const finalResult: AnalysisResult = {
    topic: topic,
    rightWingArticle: { ...rightWingArticle,
      summary: analysisData.rightWingArticleAnalysis.summary,
      spinAnalysis: analysisData.rightWingArticleAnalysis.spinAnalysis },
    leftWingArticle: { ...leftWingArticle,
      summary: analysisData.leftWingArticleAnalysis.summary,
      portrayalOfRight: analysisData.leftWingArticleAnalysis.portrayalOfRight },
    leftistTalkingPoints: analysisData.leftistTalkingPoints,
    socialistTalkingPoints: analysisData.socialistTalkingPoints,
    spectrumScore: analysisData.spectrumScore,
    spectrumJustification: analysisData.spectrumJustification,
  };
  \<close>
\<close>

definition assemble :: "string \<Rightarrow> jsval \<Rightarrow> jsval \<Rightarrow> jsval \<Rightarrow> js_error + jsval" where
  "assemble topic rightWingArticle leftWingArticle analysisData =
     (case getProp analysisData ''rightWingArticleAnalysis'' of Inl e \<Rightarrow> Inl e | Inr ra \<Rightarrow>
      case getProp ra ''summary'' of Inl e \<Rightarrow> Inl e | Inr rightSummary \<Rightarrow>
      case getProp analysisData ''leftWingArticleAnalysis'' of Inl e \<Rightarrow> Inl e | Inr la \<Rightarrow>
      case getProp la ''summary'' of Inl e \<Rightarrow> Inl e | Inr leftSummary \<Rightarrow>
        Inr (JObj
          [(''topic'', JStr topic),
           (''rightWingArticle'',
              JObj (AList.update ''spinAnalysis'' (readProp ra ''spinAnalysis'')
                     (AList.update ''summary'' rightSummary (spread rightWingArticle)))),
           (''leftWingArticle'',
              JObj (AList.update ''portrayalOfRight'' (readProp la ''portrayalOfRight'')
                     (AList.update ''summary'' leftSummary (spread leftWingArticle)))),
           (''leftistTalkingPoints'', readProp analysisData ''leftistTalkingPoints''),
           (''socialistTalkingPoints'', readProp analysisData ''socialistTalkingPoints''),
           (''spectrumScore'', readProp analysisData ''spectrumScore''),
           (''spectrumJustification'', readProp analysisData ''spectrumJustification'')]))"

text \<open>
  The body of the \<^verbatim>\<open>try\<close> block of \<^verbatim>\<open>getAnalysis\<close>. After the
  check of the two articles the prompt of the analysis request is built from the title, the source
  and the URL of each, converted to strings:
  \<^verbatim>\<open>
  const analysisPrompt = `... Right-Leaning Article:
    - Title: ${rightWingArticle.title} - Source: ${rightWingArticle.source} - URL: ${rightWingArticle.url}
    Left-Leaning Article:
    - Title: ${leftWingArticle.title} - Source: ${leftWingArticle.source} - URL: ${leftWingArticle.url} ...`;
  \<close>
\<close>

definition runAnalysis :: "platform \<Rightarrow> ai_service \<Rightarrow> string \<Rightarrow> js_error + jsval" where
  "runAnalysis pf ai topic =
     (if \<not> clientReady ai then Inl (Error ''AI client not initialized.'')
      else
      case searchReply ai of Inl e \<Rightarrow> Inl e | Inr searchText \<Rightarrow>
      case safeParseJson (JSON_parse pf) searchText of Inl e \<Rightarrow> Inl e | Inr parsedResponse \<Rightarrow>
      case findArticles pf parsedResponse (classifyReply ai) of Inl e \<Rightarrow> Inl e
      | Inr (rightWingArticle, leftWingArticle) \<Rightarrow>
        if \<not> truthy rightWingArticle \<or> \<not> truthy leftWingArticle
           \<or> \<not> truthy (readProp rightWingArticle ''title'')
           \<or> \<not> truthy (readProp leftWingArticle ''title'')
        then Inl ArticlesNotFound
        else if toStringThrows (readProp rightWingArticle ''title'')
                \<or> toStringThrows (readProp rightWingArticle ''source'')
                \<or> toStringThrows (readProp rightWingArticle ''url'')
                \<or> toStringThrows (readProp leftWingArticle ''title'')
                \<or> toStringThrows (readProp leftWingArticle ''source'')
                \<or> toStringThrows (readProp leftWingArticle ''url'')
        then Inl TypeError
        else
        case analysisReply ai of Inl e \<Rightarrow> Inl e | Inr analysisText \<Rightarrow>
        case safeParseJson (JSON_parse pf) analysisText of Inl e \<Rightarrow> Inl e | Inr analysisData \<Rightarrow>
          assemble topic rightWingArticle leftWingArticle analysisData)"

text \<open>
  \<^verbatim>\<open>getAnalysis\<close> resets the state, runs the steps, and stores the result or the
  message of the error (\<^verbatim>\<open>catch\<close>), then clears the loading flag
  (\<^verbatim>\<open>finally\<close>). The field \<open>error\<close> of the state holds the error whose
  message the page shows.
  \<^verbatim>\<open>
  setLoading(true); setLoadingMessage("Initializing analysis...");
  setError(null); setAnalysis(null); stopSpeech();
  try { ... setAnalysis(finalResult); }
  catch (err) { setError(err instanceof Error ? err.message : "An unknown error occurred."); }
  finally { setLoading(false); setLoadingMessage(""); }
  \<close>
\<close>

record analysis_state =
  analysis :: "jsval option"
  loading :: bool
  loadingMessage :: string
  error :: "js_error option"
  speech :: speech_session

definition getAnalysis :: "platform \<Rightarrow> ai_service \<Rightarrow> string \<Rightarrow> analysis_state \<Rightarrow> analysis_state" where
  "getAnalysis pf ai topic st =
     (let st1 = st\<lparr>loading := True, loadingMessage := ''Initializing analysis...'',
                   error := None, analysis := None, speech := stopSpeech (speech st)\<rparr>
      in case runAnalysis pf ai topic of
           Inl err \<Rightarrow> st1\<lparr>error := Some err, loading := False, loadingMessage := []\<rparr>
         | Inr finalResult \<Rightarrow>
             st1\<lparr>analysis := Some finalResult, loading := False, loadingMessage := []\<rparr>)"


section \<open>Headlines\<close>

text \<open>
  \<^verbatim>\<open>interface Headline { headline: string; source: string; emoji: string; publishedAt: string; }\<close>
  and \<^verbatim>\<open>interface Headlines { leftHeadlines: Headline[]; rightHeadlines: Headline[]; }\<close>
  (the variant with a \<^verbatim>\<open>url\<close> field computes the lists in the same way).
\<close>

record Headline =
  headline :: string
  source :: string
  emoji :: string
  publishedAt :: string

record Headlines =
  leftHeadlines :: "Headline list"
  rightHeadlines :: "Headline list"

text \<open>
  The comparator of both sorts,
  \<^verbatim>\<open>(a, b) => new Date(b.publishedAt).getTime() - new Date(a.publishedAt).getTime()\<close>.
  \<open>getTime\<close> stands for \<^verbatim>\<open>new Date(s).getTime()\<close>: the time in milliseconds,
  or \<open>None\<close> for \<^verbatim>\<open>NaN\<close>, which is what an unparseable date gives
  (\<^verbatim>\<open>Date\<close> does not throw, so the \<^verbatim>\<open>catch\<close> of the source is
  never entered). A \<^verbatim>\<open>NaN\<close> difference is read as \<open>0\<close> by
  \<^verbatim>\<open>Array.prototype.sort\<close>. Times are whole milliseconds of magnitude at most
  \<open>8.64e15\<close>, so the sign of their floating-point difference is that of the integer
  difference.
\<close>

definition compareByDate :: "(string \<Rightarrow> int option) \<Rightarrow> Headline \<Rightarrow> Headline \<Rightarrow> int" where
  "compareByDate getTime a b =
     (case (getTime (publishedAt b), getTime (publishedAt a)) of
        (Some tb, Some ta) \<Rightarrow> tb - ta
      | _ \<Rightarrow> 0)"

text \<open>
  \<^verbatim>\<open>Array.prototype.sort(cmp)\<close> is stable: \<open>a\<close> stays before \<open>b\<close> unless
  \<open>cmp a b > 0\<close>. With a consistent comparator the result is the one stable ordering, and
  the model, the stable insertion sort, computes it. When \<^verbatim>\<open>NaN\<close> makes the
  comparator inconsistent (a list that mixes dated and undated headlines) the language leaves the
  order to the engine: the model then gives the order of the insertion sort, one of the orders an
  engine may give, and only the facts that hold of every permutation carry over.
\<close>

fun js_insert :: "('a \<Rightarrow> 'a \<Rightarrow> int) \<Rightarrow> 'a \<Rightarrow> 'a list \<Rightarrow> 'a list" where
  "js_insert cmp x [] = [x]"
| "js_insert cmp x (y # ys) = (if cmp x y \<le> 0 then x # y # ys else y # js_insert cmp x ys)"

fun js_sort :: "('a \<Rightarrow> 'a \<Rightarrow> int) \<Rightarrow> 'a list \<Rightarrow> 'a list" where
  "js_sort cmp [] = []"
| "js_sort cmp (x # xs) = js_insert cmp x (js_sort cmp xs)"

definition sortHeadlines :: "(string \<Rightarrow> int option) \<Rightarrow> Headline list \<Rightarrow> Headline list" where
  "sortHeadlines getTime hs = js_sort (compareByDate getTime) hs"

record headlines_state =
  headlines :: "Headlines option"
  latestHeadlines :: "Headline list option"
  headlinesLoading :: bool
  headlinesError :: "string option"

text \<open>
  \<^verbatim>\<open>
  const parsedJson = JSON.parse(responseText) as Headlines;
  const allHeadlines = [...parsedJson.leftHeadlines, ...parsedJson.rightHeadlines];
  allHeadlines.sort((a, b) => ...);
  const latest = allHeadlines.slice(0, 2);
  setLatestHeadlines(latest);
  const latestHeadlinesSet = new Set(latest.map(h => h.headline));
  const remainingLeft = parsedJson.leftHeadlines.filter(h => !latestHeadlinesSet.has(h.headline));
  const remainingRight = parsedJson.rightHeadlines.filter(h => !latestHeadlinesSet.has(h.headline));
  setHeadlines({ leftHeadlines: sortHeadlines(remainingLeft),
                 rightHeadlines: sortHeadlines(remainingRight) });
  \<close>
  The response is \<open>None\<close> when anything before the lists are at hand throws (no client, a
  rejected request, a text that does not parse): the \<^verbatim>\<open>catch\<close> then sets the
  error and leaves the lists as they were.
\<close>

definition fetchHeadlines ::
  "(string \<Rightarrow> int option) \<Rightarrow> Headlines option \<Rightarrow> headlines_state \<Rightarrow> headlines_state" where
  "fetchHeadlines getTime response st =
     (let st1 = st\<lparr>headlinesLoading := True, headlinesError := None\<rparr>
      in case response of
           None \<Rightarrow>
             st1\<lparr>headlinesError := Some ''Failed to fetch headlines.'', headlinesLoading := False\<rparr>
         | Some parsedJson \<Rightarrow>
             (let allHeadlines =
                    js_sort (compareByDate getTime)
                      (leftHeadlines parsedJson @ rightHeadlines parsedJson);
                  latest = take 2 allHeadlines;
                  latestHeadlinesSet = set (map headline latest);
                  remainingLeft =
                    filter (\<lambda>h. headline h \<notin> latestHeadlinesSet) (leftHeadlines parsedJson);
                  remainingRight =
                    filter (\<lambda>h. headline h \<notin> latestHeadlinesSet) (rightHeadlines parsedJson)
              in st1\<lparr>latestHeadlines := Some latest,
                     headlines := Some \<lparr>leftHeadlines = sortHeadlines getTime remainingLeft,
                                        rightHeadlines = sortHeadlines getTime remainingRight\<rparr>,
                     headlinesLoading := False\<rparr>))"

text \<open>
  The property the specification asks of the latest list, in its own words: \<open>latest\<close> is
  exactly the two most recently published headlines of the pool, the more recent first. A headline
  is at least as recent as another when both dates are known and compare so.
\<close>

definition not_older :: "(string \<Rightarrow> int option) \<Rightarrow> Headline \<Rightarrow> Headline \<Rightarrow> bool" where
  "not_older getTime h g =
     (case (getTime (publishedAt h), getTime (publishedAt g)) of
        (Some th, Some tg) \<Rightarrow> tg \<le> th
      | _ \<Rightarrow> False)"

definition two_most_recent :: "(string \<Rightarrow> int option) \<Rightarrow> Headline list \<Rightarrow> Headline list \<Rightarrow> bool" where
  "two_most_recent getTime pool latest \<longleftrightarrow>
     length latest = 2
     \<and> mset latest \<subseteq># mset pool
     \<and> (\<forall>h \<in> set latest. \<forall>g \<in> set (foldr remove1 latest pool). not_older getTime h g)
     \<and> sorted_wrt (not_older getTime) latest"

section \<open>Narration queue\<close>

text \<open>
  A character list stands for a JavaScript string whose code units are below 256; among these,
  \<^verbatim>\<open>String.prototype.trim\<close> removes the tab, the line feed, the vertical tab, the
  form feed, the carriage return, the space and the no-break space from both ends.
\<close>

definition isWhiteSpace :: "char \<Rightarrow> bool" where
  "isWhiteSpace c \<longleftrightarrow> c \<in> {CHR 0x09, CHR 0x0A, CHR 0x0B, CHR 0x0C, CHR 0x0D, CHR 0x20, CHR 0xA0}"

definition trim :: "string \<Rightarrow> string" where
  "trim s = rev (dropWhile isWhiteSpace (rev (dropWhile isWhiteSpace s)))"

text \<open>
  \<^verbatim>\<open>text.match(/[^.!?]+[.!?]?/g)\<close>: from left to right, each match is a longest run
  of one or more characters other than \<^verbatim>\<open>.\<close>, \<^verbatim>\<open>!\<close> and
  \<^verbatim>\<open>?\<close>, with the one delimiter that follows it, if any; delimiters that do not
  follow such a run belong to no match. The empty list stands for \<^verbatim>\<open>null\<close>
  (no match).
\<close>

definition isDelim :: "char \<Rightarrow> bool" where
  "isDelim c \<longleftrightarrow> c = CHR ''.'' \<or> c = CHR ''!'' \<or> c = CHR ''?''"

function matchSentences :: "string \<Rightarrow> string list" where
  "matchSentences s =
     (case dropWhile isDelim s of
        [] \<Rightarrow> []
      | c # cs \<Rightarrow>
          (let run = takeWhile (\<lambda>x. \<not> isDelim x) (c # cs)
           in case dropWhile (\<lambda>x. \<not> isDelim x) (c # cs) of
                [] \<Rightarrow> [run]
              | d # rest \<Rightarrow> (run @ [d]) # matchSentences rest))"
  by pat_completeness auto
termination
proof (relation "measure length")
  show "wf (measure length)" by simp
next
  fix s :: string and c cs run d rest
  assume a: "dropWhile isDelim s = c # cs"
    and b: "dropWhile (\<lambda>x. \<not> isDelim x) (c # cs) = d # rest"
  have "length (d # rest) \<le> length (c # cs)"
    unfolding b [symmetric] by (rule length_dropWhile_le)
  moreover have "length (c # cs) \<le> length s"
    unfolding a [symmetric] by (rule length_dropWhile_le)
  ultimately show "(rest, s) \<in> measure length" by simp
qed

declare matchSentences.simps [simp del]

text \<open>
  \<^verbatim>\<open>
  const speechQueue: { cardId: string; text: string }[] = [];
  const addToQueue = (cardId: string, text: string | undefined | null, shouldSplit = false) => {
      if (!text || text.trim().length === 0) return;
      if (shouldSplit) {
          const sentences = text.match(/[^.!?]+[.!?]?/g) || [text];
          sentences.forEach(sentence => {
              const trimmed = sentence.trim();
              if (trimmed) speechQueue.push({ cardId, text: trimmed });
          });
      } else {
          speechQueue.push({ cardId, text });
      }
  };
  \<close>
  A queue item is the pair of its \<^verbatim>\<open>cardId\<close> and its text; the queue is passed in
  and returned. \<open>None\<close> is \<^verbatim>\<open>undefined\<close> or \<^verbatim>\<open>null\<close>.
\<close>

type_synonym queue_item = "string \<times> string"

definition sentences_of :: "string \<Rightarrow> string list" where
  "sentences_of t = (case matchSentences t of [] \<Rightarrow> [t] | m # ms \<Rightarrow> m # ms)"

definition addToQueue :: "string \<Rightarrow> string option \<Rightarrow> bool \<Rightarrow> queue_item list \<Rightarrow> queue_item list" where
  "addToQueue cardId str shouldSplit speechQueue =
     (case str of
        None \<Rightarrow> speechQueue
      | Some t \<Rightarrow>
          if t = [] \<or> length (trim t) = 0 then speechQueue
          else if shouldSplit then
            (let sentences = sentences_of t
             in foldl (\<lambda>q sentence.
                         (let trimmed = trim sentence
                          in if trimmed \<noteq> [] then q @ [(cardId, trimmed)] else q))
                  speechQueue sentences)
          else speechQueue @ [(cardId, t)])"

text \<open>
  The result type of \<^verbatim>\<open>src/index.tsx\<close> (\<^verbatim>\<open>source\<close> and
  \<^verbatim>\<open>publishedAt\<close> of an article are named \<open>articleSource\<close> and
  \<open>articlePublishedAt\<close> here, the names being those of \<open>Headline\<close> already).
\<close>

record ArticleAnalysis =
  title :: string
  url :: string
  articleSource :: string
  articlePublishedAt :: string
  summary :: string
  spinAnalysis :: "string option"
  portrayalOfRight :: "string option"

record AnalysisResult =
  topic :: string
  rightWingArticle :: ArticleAnalysis
  leftWingArticle :: ArticleAnalysis
  leftistTalkingPoints :: "string list"
  socialistTalkingPoints :: "string list"
  spectrumScore :: rat
  spectrumJustification :: string

text \<open>
  The calls of \<open>addToQueue\<close> in \<^verbatim>\<open>handleGlobalSpeech\<close>, in their order, on the
  queue that starts empty:
  \<^verbatim>\<open>
  addToQueue('right-wing', 'Right-Wing Perspective.');
  addToQueue('right-wing', `Title: ${analysis.rightWingArticle.title}`);
  addToQueue('right-wing', `Source: ${analysis.rightWingArticle.source}`);
  addToQueue('right-wing', 'Summary:');
  addToQueue('right-wing', analysis.rightWingArticle.summary, true);
  addToQueue('right-wing', 'Narrative and Spin Analysis:');
  addToQueue('right-wing', analysis.rightWingArticle.spinAnalysis, true);
  addToQueue('left-wing', 'Left-Wing Perspective.');
  (the same six calls for the left article, with portrayalOfRight)
  addToQueue('leftist-points', 'Leftist Talking Points.');
  analysis.leftistTalkingPoints.forEach(point => addToQueue('leftist-points', point, true));
  addToQueue('socialist-points', 'Socialist Talking Points.');
  analysis.socialistTalkingPoints.forEach(point => addToQueue('socialist-points', point, true));
  \<close>
\<close>

definition addAll :: "(string \<times> string option \<times> bool) list \<Rightarrow> queue_item list" where
  "addAll calls = foldl (\<lambda>q (cardId, str, shouldSplit). addToQueue cardId str shouldSplit q) [] calls"

definition buildQueue :: "AnalysisResult \<Rightarrow> queue_item list" where
  "buildQueue result =
     addAll
      ([(''right-wing'', Some ''Right-Wing Perspective.'', False),
        (''right-wing'', Some (''Title: '' @ title (rightWingArticle result)), False),
        (''right-wing'', Some (''Source: '' @ articleSource (rightWingArticle result)), False),
        (''right-wing'', Some ''Summary:'', False),
        (''right-wing'', Some (summary (rightWingArticle result)), True),
        (''right-wing'', Some ''Narrative and Spin Analysis:'', False),
        (''right-wing'', spinAnalysis (rightWingArticle result), True),
        (''left-wing'', Some ''Left-Wing Perspective.'', False),
        (''left-wing'', Some (''Title: '' @ title (leftWingArticle result)), False),
        (''left-wing'', Some (''Source: '' @ articleSource (leftWingArticle result)), False),
        (''left-wing'', Some ''Summary:'', False),
        (''left-wing'', Some (summary (leftWingArticle result)), True),
        (''left-wing'', Some ''Portrayal of Right-Wing View:'', False),
        (''left-wing'', portrayalOfRight (leftWingArticle result), True),
        (''leftist-points'', Some ''Leftist Talking Points.'', False)]
       @ map (\<lambda>point. (''leftist-points'', Some point, True)) (leftistTalkingPoints result)
       @ [(''socialist-points'', Some ''Socialist Talking Points.'', False)]
       @ map (\<lambda>point. (''socialist-points'', Some point, True)) (socialistTalkingPoints result))"

text \<open>
  The variant that analyses a single article has another result type and another order of
  sections, and the same \<open>addToQueue\<close>.
\<close>

record ArticleRef =
  refTitle :: string
  refUrl :: string
  refSource :: string
  refPublishedAt :: string

record Popularity =
  score :: string
  justification :: string

record WasEdited =
  status :: bool
  reasoning :: string

record Perspective =
  perspectiveSummary :: string
  talkingPoints :: "string list"

record ArticleAnalysisResult =
  articleTopic :: string
  analysedArticle :: ArticleRef
  category :: string
  popularity :: Popularity
  wasEdited :: WasEdited
  rightWingPerspective :: Perspective
  leftWingPerspective :: Perspective
  socialistPerspective :: Perspective
  articleSpectrumScore :: rat
  articleSpectrumJustification :: string

definition buildQueue_article :: "ArticleAnalysisResult \<Rightarrow> queue_item list" where
  "buildQueue_article result =
     addAll
      ([(''article-details'', Some (''Analyzing the article: '' @ refTitle (analysedArticle result) @ ''.''), False),
        (''article-details'', Some (''Source: '' @ refSource (analysedArticle result) @ ''.''), False),
        (''article-details'', Some (''Category: '' @ category result @ ''.''), False),
        (''article-details'', Some (''Popularity Score: '' @ score (popularity result) @ ''.''), False),
        (''article-details'', Some (justification (popularity result)), True),
        (''left-wing'', Some ''Left-Wing Perspective.'', False),
        (''left-wing'', Some (perspectiveSummary (leftWingPerspective result)), True),
        (''left-wing'', Some ''Key talking points include:'', False)]
       @ map (\<lambda>point. (''left-wing'', Some point, True)) (talkingPoints (leftWingPerspective result))
       @ [(''right-wing'', Some ''Right-Wing Perspective.'', False),
          (''right-wing'', Some (perspectiveSummary (rightWingPerspective result)), True),
          (''right-wing'', Some ''Key talking points include:'', False)]
       @ map (\<lambda>point. (''right-wing'', Some point, True)) (talkingPoints (rightWingPerspective result))
       @ [(''socialist'', Some ''Socialist Perspective.'', False),
          (''socialist'', Some (perspectiveSummary (socialistPerspective result)), True),
          (''socialist'', Some ''Key talking points include:'', False)]
       @ map (\<lambda>point. (''socialist'', Some point, True)) (talkingPoints (socialistPerspective result)))"

text \<open>
  What a piece of the split looks like: a non-empty run of characters that are no delimiters,
  followed by at most one delimiter.
\<close>

definition sentence_shaped :: "string \<Rightarrow> bool" where
  "sentence_shaped f \<longleftrightarrow>
     (\<exists>run d. f = run @ d \<and> run \<noteq> [] \<and> (\<forall>c \<in> set run. \<not> isDelim c)
        \<and> (d = [] \<or> (\<exists>c. d = [c] \<and> isDelim c)))"

text \<open>
  The splitting as the specification words it, kept apart from the code for comparison: the text is
  cut after every \<^verbatim>\<open>.\<close>, \<^verbatim>\<open>!\<close> and \<^verbatim>\<open>?\<close>, so that
  every delimiter is retained, each fragment is trimmed and the empty fragments are dropped.
\<close>

fun cut_after_delimiters :: "string \<Rightarrow> string \<Rightarrow> string list" where
  "cut_after_delimiters piece [] = (if piece = [] then [] else [piece])"
| "cut_after_delimiters piece (c # cs) =
     (if isDelim c then (piece @ [c]) # cut_after_delimiters [] cs
      else cut_after_delimiters (piece @ [c]) cs)"

definition spec_fragments :: "string \<Rightarrow> string list" where
  "spec_fragments t = filter (\<lambda>u. u \<noteq> []) (map trim (cut_after_delimiters [] t))"

section \<open>Example data\<close>

text \<open>A stand-in for \<^verbatim>\<open>JSON.parse\<close> on the one text the specification's example needs.\<close>

definition parse_example :: "string \<Rightarrow> jsval option" where
  "parse_example s =
     (if s = [CHR ''{'', CHR 0x22, CHR ''a'', CHR 0x22, CHR '':'', CHR ''1'', CHR ''}'']
      then Some (JObj [(''a'', JNum 1)]) else None)"


text \<open>
  \<^verbatim>\<open>new Date(s).getTime()\<close> on the dates of the examples (UTC midnight, in
  milliseconds); any other text is not a date.
\<close>

definition getTime_example :: "string \<Rightarrow> int option" where
  "getTime_example =
     map_of [(''2025-08-27'', 1756252800000), (''2025-08-26'', 1756166400000),
             (''2025-08-25'', 1756080000000), (''2025-08-20'', 1755648000000),
             (''2025-08-15'', 1755216000000), (''2025-08-10'', 1754784000000),
             (''2025-08-01'', 1754006400000), (''2025-07-15'', 1752537600000),
             (''2025-07-04'', 1751587200000), (''2025-06-30'', 1751241600000)]"

definition mk_headline :: "string \<Rightarrow> string \<Rightarrow> string \<Rightarrow> Headline" where
  "mk_headline t s d = \<lparr>headline = t, source = s, emoji = ''-'', publishedAt = d\<rparr>"

definition scenario_response :: Headlines where
  "scenario_response =
     \<lparr>leftHeadlines =
        [mk_headline ''L1'' ''CNN'' ''2025-08-20'', mk_headline ''L2'' ''MSNBC'' ''2025-08-27'',
         mk_headline ''L3'' ''CNN'' ''2025-08-01'', mk_headline ''L4'' ''MSNBC'' ''2025-07-15'',
         mk_headline ''L5'' ''CNN'' ''2025-08-25''],
      rightHeadlines =
        [mk_headline ''R1'' ''FOX News'' ''2025-06-30'', mk_headline ''R2'' ''Daily Wire'' ''2025-08-10'',
         mk_headline ''R3'' ''FOX News'' ''2025-08-27'', mk_headline ''R4'' ''Daily Wire'' ''2025-07-04'',
         mk_headline ''R5'' ''FOX News'' ''2025-08-15'']\<rparr>"

definition undated_response :: Headlines where
  "undated_response =
     \<lparr>leftHeadlines = [mk_headline ''A'' ''CNN'' ''yesterday'', mk_headline ''B'' ''MSNBC'' ''n/a''],
      rightHeadlines = [mk_headline ''C'' ''FOX News'' ''2025-08-20'']\<rparr>"

definition single_response :: Headlines where
  "single_response =
     \<lparr>leftHeadlines = [mk_headline ''C'' ''CNN'' ''2025-08-20''], rightHeadlines = []\<rparr>"

definition initial_headlines_state :: headlines_state where
  "initial_headlines_state =
     \<lparr>headlines = None, latestHeadlines = None, headlinesLoading = True, headlinesError = None\<rparr>"

definition repeated_response :: Headlines where
  "repeated_response =
     \<lparr>leftHeadlines = [mk_headline ''X'' ''CNN'' ''2025-08-27'', mk_headline ''L'' ''MSNBC'' ''2025-08-01''],
      rightHeadlines = [mk_headline ''X'' ''FOX News'' ''2025-06-30'', mk_headline ''R'' ''Daily Wire'' ''2025-08-26'']\<rparr>"

definition mk_voice :: "string \<Rightarrow> string \<Rightarrow> bool \<Rightarrow> Voice" where
  "mk_voice n l loc = \<lparr>name = n, lang = l, localService = loc, voiceURI = n\<rparr>"

definition example_voices :: "Voice list" where
  "example_voices =
     [mk_voice ''Anna'' ''de-DE'' True, mk_voice ''Daniel'' ''en-GB'' True,
      mk_voice ''Zira'' ''en-US'' True, mk_voice ''Alex'' ''en-US'' True,
      mk_voice ''Samantha'' ''en-US'' False]"

text \<open>The voice state before any voice has arrived.\<close>

definition initial_voice_state :: voice_state where
  "initial_voice_state = \<lparr>voices = [], selectedVoiceURI = []\<rparr>"

definition example_analysis :: AnalysisResult where
  "example_analysis =
     \<lparr>topic = ''Budget vote'',
      rightWingArticle =
        \<lparr>title = ''Spending cut'', url = ''https://example.com/r'', articleSource = ''Fox News'',
         articlePublishedAt = ''2025-08-20'', summary = ''Taxes fall. Really?! Yes...  '',
         spinAnalysis = Some '' . '', portrayalOfRight = None\<rparr>,
      leftWingArticle =
        \<lparr>title = ''Services cut'', url = ''https://example.com/l'', articleSource = ''CNN'',
         articlePublishedAt = ''2025-08-21'', summary = ''   '',
         spinAnalysis = None, portrayalOfRight = Some ''They call it reform''\<rparr>,
      leftistTalkingPoints = [''Who pays? Workers.'', ''...''],
      socialistTalkingPoints = [],
      spectrumScore = 2,
      spectrumJustification = ''Mixed coverage.''\<rparr>"

definition dq :: "string \<Rightarrow> string" where
  "dq s = CHR 0x22 # s @ [CHR 0x22]"

definition article_A :: "(string \<times> jsval) list" where
  "article_A = [(''title'', JStr ''A''), (''source'', JStr ''Fox News'')]"

definition article_B :: "(string \<times> jsval) list" where
  "article_B = [(''title'', JStr ''B''), (''source'', JStr ''CNN'')]"

definition classify_fox :: string where
  "classify_fox = ''{'' @ dq ''rightWingArticleSource'' @ '':'' @ dq ''Fox News'' @ ''}''"

definition classify_other :: string where
  "classify_other = ''{'' @ dq ''rightWingArticleSource'' @ '':'' @ dq ''Fox'' @ ''}''"

definition untitled_json :: string where
  "untitled_json =
     ''{'' @ dq ''rightWingArticle'' @ '':{'' @ dq ''source'' @ '':'' @ dq ''Fox News'' @ ''},''
       @ dq ''leftWingArticle'' @ '':{'' @ dq ''title'' @ '':'' @ dq ''B'' @ ''}}''"

text \<open>
  Two search replies with an undifferentiated list whose first article is missing:
  \<^verbatim>\<open>{"articles":[null,{"title":"B","source":"CNN"}]}\<close> and the same with
  \<^verbatim>\<open>false\<close> in the place of \<^verbatim>\<open>null\<close>.
\<close>

definition null_list_json :: string where
  "null_list_json =
     ''{'' @ dq ''articles'' @ '':[null,{'' @ dq ''title'' @ '':'' @ dq ''B'' @ '',''
       @ dq ''source'' @ '':'' @ dq ''CNN'' @ ''}]}''"

definition false_list_json :: string where
  "false_list_json =
     ''{'' @ dq ''articles'' @ '':[false,{'' @ dq ''title'' @ '':'' @ dq ''B'' @ '',''
       @ dq ''source'' @ '':'' @ dq ''CNN'' @ ''}]}''"

definition example_parse :: "string \<Rightarrow> jsval option" where
  "example_parse =
     map_of
       [(classify_fox, JObj [(''rightWingArticleSource'', JStr ''Fox News'')]),
        (classify_other, JObj [(''rightWingArticleSource'', JStr ''Fox'')]),
        (untitled_json,
           JObj [(''rightWingArticle'', JObj [(''source'', JStr ''Fox News'')]),
                 (''leftWingArticle'', JObj [(''title'', JStr ''B'')])]),
        (null_list_json, JObj [(''articles'', JArr [JNull, JObj article_B])]),
        (false_list_json, JObj [(''articles'', JArr [JBool False, JObj article_B])])]"

definition example_platform :: platform where
  "example_platform =
     \<lparr>JSON_parse = example_parse,
      nowISO = (\<lambda>i. ''2025-08-28T12:00:00.000Z''),
      looseGe2 = (\<lambda>v. False)\<rparr>"

definition untitled_service :: ai_service where
  "untitled_service =
     \<lparr>clientReady = True, searchReply = Inr untitled_json,
      classifyReply = Inl (Error ''not asked''), analysisReply = Inl (Error ''not asked'')\<rparr>"

definition null_list_service :: ai_service where
  "null_list_service =
     \<lparr>clientReady = True, searchReply = Inr null_list_json,
      classifyReply = Inr classify_fox, analysisReply = Inl (Error ''not asked'')\<rparr>"

definition false_list_service :: ai_service where
  "false_list_service =
     \<lparr>clientReady = True, searchReply = Inr false_list_json,
      classifyReply = Inr classify_fox, analysisReply = Inl (Error ''not asked'')\<rparr>"

definition initial_analysis_state :: analysis_state where
  "initial_analysis_state =
     \<lparr>analysis = None, loading = False, loadingMessage = [], error = None,
      speech = \<lparr>globalSpeechState = Stopped, currentlySpeakingCard = None, utterances = [],
                currentIndex = 0,
                synth = \<lparr>supported = True, speaking = False, pending = False\<rparr>\<rparr>\<rparr>"

section \<open>Facts about the string primitives\<close>

lemma indexOf_absent: "c \<notin> set s \<Longrightarrow> indexOf s c = -1"
  by (induction s) auto

lemma indexOf_ge: "indexOf s c = -1 \<or> 0 \<le> indexOf s c"
  by (induction s) (auto simp: Let_def)

lemma indexOf_present: "c \<notin> set pre \<Longrightarrow> indexOf (pre @ c # rest) c = int (length pre)"
  by (induction pre) (auto simp: Let_def)

lemma indexOf_neg_iff: "indexOf s c = -1 \<longleftrightarrow> c \<notin> set s"
proof
  show "indexOf s c = -1 \<Longrightarrow> c \<notin> set s"
  proof (induction s)
    case Nil
    then show ?case by simp
  next
    case (Cons x xs)
    then show ?case
      using indexOf_ge [of xs c] by (auto simp: Let_def split: if_splits)
  qed
qed (rule indexOf_absent)

lemma lastIndexOf_neg_iff: "lastIndexOf s c = -1 \<longleftrightarrow> c \<notin> set s"
proof -
  have "indexOf (rev s) c \<le> int (length s) - 1"
  proof -
    have "indexOf t c \<le> int (length t) - 1" for t
      by (induction t) (auto simp: Let_def)
    from this [of "rev s"] show ?thesis by simp
  qed
  then show ?thesis
    using indexOf_neg_iff [of "rev s" c] indexOf_ge [of "rev s" c]
    by (auto simp: lastIndexOf_def Let_def)
qed

lemma lastIndexOf_present:
  assumes "c \<notin> set post"
  shows "lastIndexOf (front @ c # post) c = int (length front)"
proof -
  have "rev (front @ c # post) = rev post @ c # rev front" by simp
  moreover have "c \<notin> set (rev post)" using assms by simp
  ultimately have "indexOf (rev (front @ c # post)) c = int (length post)"
    using indexOf_present [of c "rev post" "rev front"] by simp
  then show ?thesis by (simp add: lastIndexOf_def Let_def)
qed

lemma substring_middle:
  "substring (pre @ body @ post) (int (length pre)) (int (length pre) + int (length body)) = body"
  by (simp add: substring_def Let_def min_def max_def)

lemma split_first_last:
  assumes "s = pre @ CHR ''{'' # mid @ CHR ''}'' # post"
  shows "\<exists>pre' mid' post'. s = pre' @ CHR ''{'' # mid' @ CHR ''}'' # post'
           \<and> CHR ''{'' \<notin> set pre' \<and> CHR ''}'' \<notin> set post'"
proof -
  have "CHR ''{'' \<in> set (pre @ [CHR ''{''])" by simp
  then obtain p1 r1 where p1: "pre @ [CHR ''{''] = p1 @ CHR ''{'' # r1" "CHR ''{'' \<notin> set p1"
    by (meson split_list_first)
  have "CHR ''}'' \<in> set (CHR ''}'' # post)" by simp
  then obtain r2 p2 where p2: "CHR ''}'' # post = r2 @ CHR ''}'' # p2" "CHR ''}'' \<notin> set p2"
    by (meson split_list_last)
  have "s = (pre @ [CHR ''{'']) @ mid @ (CHR ''}'' # post)" using assms by simp
  also have "\<dots> = p1 @ CHR ''{'' # (r1 @ mid @ r2) @ CHR ''}'' # p2"
    using p1(1) p2(1) by simp
  finally show ?thesis using p1(2) p2(2) by blast
qed

lemma safeParseJson_found:
  assumes "CHR ''{'' \<notin> set pre" and "CHR ''}'' \<notin> set post"
  shows "safeParseJson P (pre @ CHR ''{'' # mid @ CHR ''}'' # post) =
           (case P (CHR ''{'' # mid @ [CHR ''}'']) of
              None \<Rightarrow> Inl MalformedResponse | Some v \<Rightarrow> Inr v)"
proof -
  let ?s = "pre @ CHR ''{'' # mid @ CHR ''}'' # post"
  let ?body = "CHR ''{'' # mid @ [CHR ''}'']"
  have i: "indexOf ?s CHR ''{'' = int (length pre)"
    using assms(1) by (rule indexOf_present)
  have "?s = (pre @ CHR ''{'' # mid) @ CHR ''}'' # post" by simp
  then have l: "lastIndexOf ?s CHR ''}'' = int (length pre) + int (length mid) + 1"
    using lastIndexOf_present [OF assms(2), of "pre @ CHR ''{'' # mid"] by simp
  have "substring (pre @ ?body @ post) (int (length pre)) (int (length pre) + int (length ?body)) = ?body"
    by (rule substring_middle)
  moreover have "pre @ ?body @ post = ?s" by simp
  moreover have "int (length pre) + int (length ?body) = int (length pre) + int (length mid) + 1 + 1"
    by simp
  ultimately have sub: "substring ?s (int (length pre)) (int (length pre) + int (length mid) + 1 + 1) = ?body"
    by (simp only:)
  show ?thesis
    unfolding safeParseJson_def Let_def i l sub by simp
qed

lemma safeParseJson_not_found:
  assumes "\<not> (\<exists>pre mid post. s = pre @ CHR ''{'' # mid @ CHR ''}'' # post)"
  shows "safeParseJson P s = Inl MalformedResponse"
proof (cases "CHR ''{'' \<in> set s \<and> CHR ''}'' \<in> set s")
  case False
  then show ?thesis
    by (auto simp: safeParseJson_def Let_def indexOf_neg_iff lastIndexOf_neg_iff)
next
  case True
  then obtain pre r where s1: "s = pre @ CHR ''{'' # r" "CHR ''{'' \<notin> set pre"
    by (meson split_list_first)
  from True obtain f post where s2: "s = f @ CHR ''}'' # post" "CHR ''}'' \<notin> set post"
    by (meson split_list_last)
  have i: "indexOf s CHR ''{'' = int (length pre)"
    using s1 indexOf_present by simp
  have l: "lastIndexOf s CHR ''}'' = int (length f)"
    using s2 lastIndexOf_present by simp
  have "length f < length pre"
  proof (rule ccontr)
    assume "\<not> length f < length pre"
    then have le: "length pre \<le> length f" by simp
    have "take (length pre) s = pre" using s1 by simp
    then have "take (length pre) f = pre" using s2 le by simp
    then obtain m where f: "f = pre @ m" by (metis append_take_drop_id)
    with s1 s2 have "CHR ''{'' # r = m @ CHR ''}'' # post" by simp
    then obtain m' where "m = CHR ''{'' # m'" by (cases m) auto
    with f s2 have "s = pre @ CHR ''{'' # m' @ CHR ''}'' # post" by simp
    with assms show False by blast
  qed
  then show ?thesis
    by (simp add: safeParseJson_def Let_def i l)
qed

section \<open>Facts about the sort and the latest list\<close>

lemma set_js_insert: "set (js_insert cmp x ys) = insert x (set ys)"
  by (induction ys) auto

lemma set_js_sort: "set (js_sort cmp xs) = set xs"
  by (induction xs) (auto simp: set_js_insert)

lemma mset_js_insert: "mset (js_insert cmp x ys) = add_mset x (mset ys)"
  by (induction ys) auto

lemma mset_js_sort: "mset (js_sort cmp xs) = mset xs"
  by (induction xs) (auto simp: mset_js_insert)

lemma js_insert_sorted:
  assumes "sorted_wrt (\<lambda>a b. key b \<le> key a) ys"
    and "\<forall>a \<in> insert x (set ys). \<forall>b \<in> insert x (set ys). (cmp a b \<le> 0) = ((key b :: int) \<le> key a)"
  shows "sorted_wrt (\<lambda>a b. key b \<le> key a) (js_insert cmp x ys)"
  using assms
proof (induction ys)
  case Nil
  then show ?case by simp
next
  case (Cons y ys)
  show ?case
  proof (cases "cmp x y \<le> 0")
    case True
    with Cons.prems have "key y \<le> key x" by simp
    moreover have "\<forall>b \<in> set ys. key b \<le> key y" using Cons.prems(1) by simp
    ultimately have "\<forall>b \<in> set (y # ys). key b \<le> key x" by auto
    with True Cons.prems(1) show ?thesis by simp
  next
    case False
    with Cons.prems have xy: "key x \<le> key y" by auto
    have "sorted_wrt (\<lambda>a b. key b \<le> key a) (js_insert cmp x ys)"
      using Cons.IH Cons.prems by auto
    moreover have "\<forall>b \<in> set (js_insert cmp x ys). key b \<le> key y"
      using xy Cons.prems(1) by (auto simp: set_js_insert)
    ultimately show ?thesis using False by simp
  qed
qed

lemma js_sort_sorted:
  assumes "\<forall>a \<in> set xs. \<forall>b \<in> set xs. (cmp a b \<le> 0) = ((key b :: int) \<le> key a)"
  shows "sorted_wrt (\<lambda>a b. key b \<le> key a) (js_sort cmp xs)"
  using assms
proof (induction xs)
  case Nil
  then show ?case by simp
next
  case (Cons x xs)
  have "sorted_wrt (\<lambda>a b. key b \<le> key a) (js_sort cmp xs)"
    using Cons by auto
  then show ?case
    using Cons.prems by (auto intro!: js_insert_sorted simp: set_js_sort)
qed

lemma mset_foldr_remove1: "mset (foldr remove1 ys xs) = mset xs - mset ys"
  by (induction ys) (auto simp: diff_diff_add_mset)


lemma compareByDate_valid:
  assumes "getTime (publishedAt a) \<noteq> None" and "getTime (publishedAt b) \<noteq> None"
  shows "(compareByDate getTime a b \<le> 0) =
           (the (getTime (publishedAt b)) \<le> the (getTime (publishedAt a)))"
  using assms by (auto simp: compareByDate_def)

lemma not_older_valid:
  assumes "getTime (publishedAt h) \<noteq> None" and "getTime (publishedAt g) \<noteq> None"
  shows "not_older getTime h g = (the (getTime (publishedAt g)) \<le> the (getTime (publishedAt h)))"
  using assms by (auto simp: not_older_def)

lemma latest_two_most_recent:
  fixes pool :: "Headline list"
  assumes valid: "\<forall>h \<in> set pool. getTime (publishedAt h) \<noteq> None"
    and two: "2 \<le> length pool"
  shows "two_most_recent getTime pool (take 2 (js_sort (compareByDate getTime) pool))"
proof -
  define key :: "Headline \<Rightarrow> int" where "key h = the (getTime (publishedAt h))" for h
  define sorted where "sorted = js_sort (compareByDate getTime) pool"
  define latest where "latest = take 2 sorted"
  define rest where "rest = drop 2 sorted"
  have perm: "mset sorted = mset pool"
    by (simp add: sorted_def mset_js_sort)
  then have set_eq: "set sorted = set pool" by (metis set_mset_mset)
  from perm have "length sorted = length pool" by (metis size_mset)
  with two have len: "length latest = 2" by (simp add: latest_def)
  have split: "sorted = latest @ rest" by (simp add: latest_def rest_def)
  have "\<forall>a \<in> set pool. \<forall>b \<in> set pool. (compareByDate getTime a b \<le> 0) = (key b \<le> key a)"
    using valid by (simp add: compareByDate_valid key_def)
  then have "sorted_wrt (\<lambda>a b. key b \<le> key a) sorted"
    unfolding sorted_def by (rule js_sort_sorted)
  then have sl: "sorted_wrt (\<lambda>a b. key b \<le> key a) latest"
    and dom: "\<forall>h \<in> set latest. \<forall>g \<in> set rest. key g \<le> key h"
    by (simp_all add: split sorted_wrt_append)
  have sub: "mset latest \<subseteq># mset pool"
    using perm split by (metis mset_append mset_subset_eq_add_left)
  have "mset pool = mset latest + mset rest"
    using perm split by (metis mset_append)
  then have "mset (foldr remove1 latest pool) = mset rest"
    by (simp add: mset_foldr_remove1)
  then have removed: "set (foldr remove1 latest pool) = set rest"
    by (metis set_mset_mset)
  have vl: "\<forall>h \<in> set latest. getTime (publishedAt h) \<noteq> None"
    and vr: "\<forall>g \<in> set rest. getTime (publishedAt g) \<noteq> None"
    using valid set_eq split by auto
  have "\<forall>h \<in> set latest. \<forall>g \<in> set (foldr remove1 latest pool). not_older getTime h g"
    using dom vl vr by (simp add: removed not_older_valid key_def)
  moreover have "sorted_wrt (not_older getTime) latest"
    using sl vl by (auto intro: sorted_wrt_mono_rel [rotated] simp: not_older_valid key_def)
  ultimately show ?thesis
    using len sub by (simp add: two_most_recent_def latest_def sorted_def)
qed

section \<open>Facts about voice selection\<close>

lemma find_SomeD: "find P xs = Some x \<Longrightarrow> x \<in> set xs \<and> P x"
  by (induction xs) (auto split: if_splits)

lemma firstPremium_None:
  "firstPremium vcs ns = None \<longleftrightarrow> (\<forall>n \<in> set ns. \<forall>v \<in> set vcs. \<not> (name v = n \<and> lang v = ''en-US''))"
  by (induction ns) (auto simp: find_None_iff split: option.splits dest: find_SomeD)

lemma firstPremium_Some:
  "firstPremium vcs ns = Some v \<Longrightarrow>
     \<exists>i < length ns. find (\<lambda>w. name w = ns ! i \<and> lang w = ''en-US'') vcs = Some v
        \<and> (\<forall>j < i. \<forall>w \<in> set vcs. \<not> (name w = ns ! j \<and> lang w = ''en-US''))"
proof (induction ns)
  case Nil
  then show ?case by simp
next
  case (Cons n ns)
  show ?case
  proof (cases "find (\<lambda>w. name w = n \<and> lang w = ''en-US'') vcs")
    case (Some u)
    with Cons.prems have "u = v" by simp
    with Some have "find (\<lambda>w. name w = (n # ns) ! 0 \<and> lang w = ''en-US'') vcs = Some v" by simp
    then show ?thesis by (intro exI [of _ 0]) simp
  next
    case None
    with Cons.prems have "firstPremium vcs ns = Some v" by simp
    from Cons.IH [OF this] obtain i where i: "i < length ns"
      "find (\<lambda>w. name w = ns ! i \<and> lang w = ''en-US'') vcs = Some v"
      "\<forall>j < i. \<forall>w \<in> set vcs. \<not> (name w = ns ! j \<and> lang w = ''en-US'')" by blast
    have "\<forall>j < Suc i. \<forall>w \<in> set vcs. \<not> (name w = (n # ns) ! j \<and> lang w = ''en-US'')"
    proof (intro allI impI)
      fix j assume "j < Suc i"
      show "\<forall>w \<in> set vcs. \<not> (name w = (n # ns) ! j \<and> lang w = ''en-US'')"
      proof (cases j)
        case 0
        then show ?thesis using None by (auto simp: find_None_iff)
      next
        case (Suc k)
        then show ?thesis using i(3) \<open>j < Suc i\<close> by simp
      qed
    qed
    with i(1,2) show ?thesis by (intro exI [of _ "Suc i"]) simp
  qed
qed

text \<open>
  The loader's default selection: the voice of \<open>getBestVoice\<close>, and the first voice of
  the list when it finds none.
\<close>

lemma loadVoices_selection:
  "selectedVoiceURI (loadVoices (v # vcs) vs) =
     (case getBestVoice (v # vcs) of Some bestVoice \<Rightarrow> voiceURI bestVoice | None \<Rightarrow> voiceURI v)"
  by (simp add: loadVoices_def)

lemma firstPremium_member: "firstPremium vcs ns = Some v \<Longrightarrow> v \<in> set vcs"
  by (induction ns) (auto split: option.splits dest: find_SomeD)

lemma getBestVoice_member: "getBestVoice vcs = Some v \<Longrightarrow> v \<in> set vcs"
  by (auto simp: getBestVoice_def split: if_splits option.splits
      dest: find_SomeD firstPremium_member)

lemma startsWith_en_US: "startsWith ''en-US'' ''en''"
  by (simp add: startsWith_def)

section \<open>Facts about trimming and sentence splitting\<close>

lemma dropWhile_all_iff: "(\<forall>c \<in> set (dropWhile P s). P c) \<longleftrightarrow> dropWhile P s = []"
proof
  assume all: "\<forall>c \<in> set (dropWhile P s). P c"
  show "dropWhile P s = []"
  proof (rule ccontr)
    assume ne: "dropWhile P s \<noteq> []"
    then have "\<not> P (hd (dropWhile P s))" by (rule hd_dropWhile)
    moreover have "hd (dropWhile P s) \<in> set (dropWhile P s)" using ne by simp
    ultimately show False using all by blast
  qed
qed (auto dest: set_dropWhileD)

lemma trim_Nil_iff: "trim s = [] \<longleftrightarrow> (\<forall>c \<in> set s. isWhiteSpace c)"
proof -
  have "trim s = [] \<longleftrightarrow> (\<forall>c \<in> set (dropWhile isWhiteSpace s). isWhiteSpace c)"
    by (simp add: trim_def)
  also have "\<dots> \<longleftrightarrow> dropWhile isWhiteSpace s = []"
    by (rule dropWhile_all_iff)
  also have "\<dots> \<longleftrightarrow> (\<forall>c \<in> set s. isWhiteSpace c)"
    by simp
  finally show ?thesis .
qed

lemma trim_hd: "trim s \<noteq> [] \<Longrightarrow> \<not> isWhiteSpace (hd (trim s))"
proof -
  assume ne: "trim s \<noteq> []"
  let ?a = "dropWhile isWhiteSpace s"
  let ?b = "dropWhile isWhiteSpace (rev ?a)"
  from ne have b: "?b \<noteq> []" by (simp add: trim_def)
  then have a: "?a \<noteq> []" by (auto dest: set_dropWhileD)
  have "rev ?a = takeWhile isWhiteSpace (rev ?a) @ ?b" by simp
  then have "?a = rev ?b @ rev (takeWhile isWhiteSpace (rev ?a))"
    by (metis rev_append rev_rev_ident)
  then have "hd ?a = hd (rev ?b)" using b by (metis hd_append2 rev_is_Nil_conv)
  moreover have "\<not> isWhiteSpace (hd ?a)" using a by (rule hd_dropWhile)
  ultimately show ?thesis by (simp add: trim_def)
qed

lemma trim_last: "trim s \<noteq> [] \<Longrightarrow> \<not> isWhiteSpace (last (trim s))"
proof -
  assume ne: "trim s \<noteq> []"
  let ?b = "dropWhile isWhiteSpace (rev (dropWhile isWhiteSpace s))"
  from ne have b: "?b \<noteq> []" by (simp add: trim_def)
  then have "\<not> isWhiteSpace (hd ?b)" by (rule hd_dropWhile)
  then show ?thesis using b by (simp add: trim_def last_rev)
qed

lemma trim_not_blank:
  assumes "trim s \<noteq> []"
  shows "trim (trim s) \<noteq> []"
proof -
  have "hd (trim s) \<in> set (trim s)" using assms by simp
  moreover have "\<not> isWhiteSpace (hd (trim s))" using assms by (rule trim_hd)
  ultimately have "\<not> (\<forall>c \<in> set (trim s). isWhiteSpace c)" by blast
  then show ?thesis using trim_Nil_iff [of "trim s"] by blast
qed

lemma matchSentences_none:
  assumes "dropWhile isDelim s = []"
  shows "matchSentences s = []"
  by (subst matchSentences.simps) (simp only: assms list.case)

lemma matchSentences_last:
  assumes "dropWhile isDelim s = c # cs" and "dropWhile (\<lambda>x. \<not> isDelim x) (c # cs) = []"
  shows "matchSentences s = [takeWhile (\<lambda>x. \<not> isDelim x) (c # cs)]"
  by (subst matchSentences.simps) (simp only: assms list.case Let_def)

lemma matchSentences_more:
  assumes "dropWhile isDelim s = c # cs" and "dropWhile (\<lambda>x. \<not> isDelim x) (c # cs) = d # rest"
  shows "matchSentences s = (takeWhile (\<lambda>x. \<not> isDelim x) (c # cs) @ [d]) # matchSentences rest"
  by (subst matchSentences.simps) (simp only: assms list.case Let_def)

lemma run_properties:
  assumes "dropWhile isDelim s = c # cs"
  shows "takeWhile (\<lambda>x. \<not> isDelim x) (c # cs) \<noteq> []"
    and "\<forall>x \<in> set (takeWhile (\<lambda>x. \<not> isDelim x) (c # cs)). \<not> isDelim x"
proof -
  have "dropWhile isDelim s \<noteq> []" by (simp only: assms) simp
  then have "\<not> isDelim (hd (dropWhile isDelim s))" by (rule hd_dropWhile [of isDelim s])
  then have "\<not> isDelim c" by (simp only: assms list.sel simp_thms)
  then have "takeWhile (\<lambda>x. \<not> isDelim x) (c # cs) = c # takeWhile (\<lambda>x. \<not> isDelim x) cs"
    by simp
  then show "takeWhile (\<lambda>x. \<not> isDelim x) (c # cs) \<noteq> []"
    by (simp only: list.distinct simp_thms)
next
  show "\<forall>x \<in> set (takeWhile (\<lambda>x. \<not> isDelim x) (c # cs)). \<not> isDelim x"
    by (blast dest: set_takeWhileD)
qed

lemma rest_delim:
  assumes "dropWhile (\<lambda>x. \<not> isDelim x) xs = d # rest"
  shows "isDelim d"
proof -
  have "dropWhile (\<lambda>x. \<not> isDelim x) xs \<noteq> []" by (simp only: assms) simp
  then have "\<not> \<not> isDelim (hd (dropWhile (\<lambda>x. \<not> isDelim x) xs))"
    by (rule hd_dropWhile [of "\<lambda>x. \<not> isDelim x" xs])
  then show ?thesis by (simp only: assms list.sel simp_thms)
qed

lemma sentence_shapedI:
  assumes "run \<noteq> []" and "\<forall>c \<in> set run. \<not> isDelim c"
  shows "sentence_shaped run" and "isDelim d \<Longrightarrow> sentence_shaped (run @ [d])"
proof -
  show "sentence_shaped run"
    unfolding sentence_shaped_def
  proof (intro exI conjI)
    show "run = run @ []" by simp
    show "run \<noteq> []" by (rule assms(1))
    show "\<forall>c \<in> set run. \<not> isDelim c" by (rule assms(2))
    show "[] = [] \<or> (\<exists>c. [] = [c] \<and> isDelim c)" by simp
  qed
  show "sentence_shaped (run @ [d])" if "isDelim d"
    unfolding sentence_shaped_def
  proof (intro exI conjI)
    show "run @ [d] = run @ [d]" by (rule refl)
    show "run \<noteq> []" by (rule assms(1))
    show "\<forall>c \<in> set run. \<not> isDelim c" by (rule assms(2))
    show "[d] = [] \<or> (\<exists>c. [d] = [c] \<and> isDelim c)" using that by blast
  qed
qed

lemma matchSentences_shape: "\<forall>f \<in> set (matchSentences s). sentence_shaped f"
proof (induction s rule: matchSentences.induct)
  case (1 s)
  show ?case
  proof (cases "dropWhile isDelim s")
    case Nil
    then show ?thesis by (simp only: matchSentences_none list.set ball_empty)
  next
    case outer: (Cons c cs)
    let ?run = "takeWhile (\<lambda>x. \<not> isDelim x) (c # cs)"
    note run = run_properties [OF outer]
    show ?thesis
    proof (cases "dropWhile (\<lambda>x. \<not> isDelim x) (c # cs)")
      case Nil
      have "sentence_shaped ?run"
        using run by (rule sentence_shapedI(1))
      then show ?thesis
        by (simp only: matchSentences_last [OF outer Nil] list.set ball_simps simp_thms)
    next
      case (Cons d rest)
      have "sentence_shaped (?run @ [d])"
        using run rest_delim [OF Cons] by (rule sentence_shapedI(2))
      moreover have "\<forall>f \<in> set (matchSentences rest). sentence_shaped f"
        using "1.IH" [OF outer refl Cons] .
      ultimately show ?thesis
        by (simp only: matchSentences_more [OF outer Cons] list.set ball_simps simp_thms)
    qed
  qed
qed

lemma filter_dropWhile_delim:
  "filter (\<lambda>x. \<not> isDelim x) (dropWhile isDelim s) = filter (\<lambda>x. \<not> isDelim x) s"
  by (induction s) auto

lemma matchSentences_keeps_prose:
  "filter (\<lambda>x. \<not> isDelim x) (concat (matchSentences s)) = filter (\<lambda>x. \<not> isDelim x) s"
proof (induction s rule: matchSentences.induct)
  case (1 s)
  let ?nd = "\<lambda>x. \<not> isDelim x"
  show ?case
  proof (cases "dropWhile isDelim s")
    case Nil
    have "filter ?nd s = filter ?nd (dropWhile isDelim s)"
      by (rule filter_dropWhile_delim [symmetric])
    also have "\<dots> = []" by (simp only: Nil filter.simps)
    finally show ?thesis by (simp add: matchSentences_none [OF Nil])
  next
    case outer: (Cons c cs)
    let ?run = "takeWhile ?nd (c # cs)"
    have "filter ?nd s = filter ?nd (dropWhile isDelim s)"
      by (rule filter_dropWhile_delim [symmetric])
    then have whole: "filter ?nd s = filter ?nd (c # cs)" by (simp only: outer)
    have split: "c # cs = ?run @ dropWhile ?nd (c # cs)"
      by (rule takeWhile_dropWhile_id [symmetric])
    show ?thesis
    proof (cases "dropWhile ?nd (c # cs)")
      case Nil
      have "c # cs = ?run" using split by (simp only: Nil append_Nil2)
      then have "filter ?nd (c # cs) = filter ?nd ?run"
        by (rule arg_cong [where f = "filter ?nd"])
      then have "filter ?nd s = filter ?nd ?run" using whole by (simp only:)
      then show ?thesis
        by (simp only: matchSentences_last [OF outer Nil] concat.simps append_Nil2)
    next
      case (Cons d rest)
      have d: "isDelim d" using Cons by (rule rest_delim)
      have ih: "filter ?nd (concat (matchSentences rest)) = filter ?nd rest"
        using "1.IH" [OF outer refl Cons] .
      have "c # cs = ?run @ d # rest" using split by (simp only: Cons)
      then have "filter ?nd (c # cs) = filter ?nd (?run @ d # rest)"
        by (rule arg_cong [where f = "filter ?nd"])
      also have "\<dots> = filter ?nd (?run @ [d]) @ filter ?nd rest"
        using d by (simp only: filter_append filter.simps not_True_eq_False if_False append_Nil2 simp_thms)
      finally have "filter ?nd (c # cs) = filter ?nd (?run @ [d]) @ filter ?nd rest" .
      then have "filter ?nd s = filter ?nd (?run @ [d]) @ filter ?nd (concat (matchSentences rest))"
        by (simp only: whole ih)
      then show ?thesis
        by (simp only: matchSentences_more [OF outer Cons] concat.simps filter_append)
    qed
  qed
qed

lemma matchSentences_delimited:
  "\<forall>f \<in> set (butlast (matchSentences s)). isDelim (last f)"
proof (induction s rule: matchSentences.induct)
  case (1 s)
  show ?case
  proof (cases "dropWhile isDelim s")
    case Nil
    then show ?thesis by (simp add: matchSentences_none)
  next
    case outer: (Cons c cs)
    show ?thesis
    proof (cases "dropWhile (\<lambda>x. \<not> isDelim x) (c # cs)")
      case Nil
      then show ?thesis by (simp add: matchSentences_last [OF outer Nil])
    next
      case (Cons d rest)
      have "\<forall>f \<in> set (butlast (matchSentences rest)). isDelim (last f)"
        using "1.IH" [OF outer refl Cons] .
      then show ?thesis
        using rest_delim [OF Cons] by (simp add: matchSentences_more [OF outer Cons])
    qed
  qed
qed

lemma matchSentences_Nil_iff: "matchSentences s = [] \<longleftrightarrow> (\<forall>c \<in> set s. isDelim c)"
proof (cases "dropWhile isDelim s")
  case Nil
  then have "\<forall>c \<in> set s. isDelim c" by simp
  then show ?thesis by (simp add: matchSentences_none [OF Nil])
next
  case outer: (Cons c cs)
  have "dropWhile isDelim s \<noteq> []" by (simp only: outer) simp
  then have "\<not> (\<forall>c \<in> set s. isDelim c)"
    by (simp only: dropWhile_eq_Nil_conv simp_thms)
  moreover have "matchSentences s \<noteq> []"
  proof (cases "dropWhile (\<lambda>x. \<not> isDelim x) (c # cs)")
    case Nil
    then show ?thesis by (simp add: matchSentences_last [OF outer Nil])
  next
    case (Cons d rest)
    then show ?thesis by (simp add: matchSentences_more [OF outer Cons])
  qed
  ultimately show ?thesis by simp
qed

lemma foldl_push:
  "foldl (\<lambda>q sentence. if trim sentence \<noteq> [] then q @ [(cardId, trim sentence)] else q) q ss
     = q @ map (Pair cardId) (filter (\<lambda>x. x \<noteq> []) (map trim ss))"
  by (induction ss arbitrary: q) auto

lemma addToQueue_split:
  assumes "trim t \<noteq> []"
  shows "addToQueue cardId (Some t) True q =
           q @ map (Pair cardId) (filter (\<lambda>x. x \<noteq> []) (map trim (sentences_of t)))"
proof -
  have "t \<noteq> []" using assms by (auto simp: trim_def)
  then show ?thesis
    using assms by (simp add: addToQueue_def foldl_push Let_def)
qed

lemma addToQueue_whole:
  assumes "trim t \<noteq> []"
  shows "addToQueue cardId (Some t) False q = q @ [(cardId, t)]"
proof -
  have "t \<noteq> []" using assms by (auto simp: trim_def)
  then show ?thesis using assms by (simp add: addToQueue_def)
qed

lemma addToQueue_blank:
  "trim t = [] \<Longrightarrow> addToQueue cardId (Some t) shouldSplit q = q"
  "addToQueue cardId None shouldSplit q = q"
  by (simp_all add: addToQueue_def)

lemma addToQueue_not_blank:
  assumes "\<forall>item \<in> set q. trim (snd item) \<noteq> []"
  shows "\<forall>item \<in> set (addToQueue cardId str shouldSplit q). trim (snd item) \<noteq> []"
proof (cases str)
  case None
  then show ?thesis using assms by (simp add: addToQueue_blank)
next
  case (Some t)
  show ?thesis
  proof (cases "trim t = []")
    case True
    then show ?thesis using assms Some by (simp add: addToQueue_blank)
  next
    case nonblank: False
    show ?thesis
    proof (cases shouldSplit)
      case True
      have eq: "addToQueue cardId str shouldSplit q =
          q @ map (Pair cardId) (filter (\<lambda>x. x \<noteq> []) (map trim (sentences_of t)))"
        using nonblank True Some by (simp add: addToQueue_split)
      show ?thesis
      proof
        fix item
        assume "item \<in> set (addToQueue cardId str shouldSplit q)"
        then consider "item \<in> set q"
          | x where "item = (cardId, trim x)" and "trim x \<noteq> []"
          unfolding eq by auto
        then show "trim (snd item) \<noteq> []"
        proof cases
          case 1
          then show ?thesis using assms by blast
        next
          case 2
          then show ?thesis using trim_not_blank [of x] by simp
        qed
      qed
    next
      case False
      have eq: "addToQueue cardId str shouldSplit q = q @ [(cardId, t)]"
        using nonblank False Some by (simp add: addToQueue_whole)
      show ?thesis unfolding eq using assms nonblank by simp
    qed
  qed
qed

lemma foldl_addToQueue_not_blank:
  assumes "\<forall>item \<in> set q. trim (snd item) \<noteq> []"
  shows "\<forall>item \<in> set (foldl (\<lambda>q (cardId, str, shouldSplit). addToQueue cardId str shouldSplit q) q calls).
           trim (snd item) \<noteq> []"
  using assms
proof (induction calls arbitrary: q)
  case Nil
  then show ?case by simp
next
  case (Cons call calls)
  obtain cardId str shouldSplit where call: "call = (cardId, str, shouldSplit)"
    by (cases call) auto
  have "\<forall>item \<in> set (addToQueue cardId str shouldSplit q). trim (snd item) \<noteq> []"
    using Cons.prems by (rule addToQueue_not_blank)
  from Cons.IH [OF this] show ?case by (simp add: call)
qed

lemma addAll_not_blank: "\<forall>item \<in> set (addAll calls). trim (snd item) \<noteq> []"
  unfolding addAll_def by (rule foldl_addToQueue_not_blank) simp


lemma trim_decompose:
  "\<exists>pre post. t = pre @ trim t @ post
      \<and> (\<forall>c \<in> set pre. isWhiteSpace c) \<and> (\<forall>c \<in> set post. isWhiteSpace c)"
proof (intro exI conjI)
  let ?a = "dropWhile isWhiteSpace t"
  have "rev ?a = takeWhile isWhiteSpace (rev ?a) @ dropWhile isWhiteSpace (rev ?a)" by simp
  then have "?a = rev (dropWhile isWhiteSpace (rev ?a)) @ rev (takeWhile isWhiteSpace (rev ?a))"
    by (metis rev_append rev_rev_ident)
  then have "?a = trim t @ rev (takeWhile isWhiteSpace (rev ?a))"
    by (simp only: trim_def)
  moreover have "t = takeWhile isWhiteSpace t @ ?a" by simp
  ultimately show "t = takeWhile isWhiteSpace t @ trim t @ rev (takeWhile isWhiteSpace (rev ?a))"
    by (simp only:)
  show "\<forall>c \<in> set (takeWhile isWhiteSpace t). isWhiteSpace c"
    by (blast dest: set_takeWhileD)
  show "\<forall>c \<in> set (rev (takeWhile isWhiteSpace (rev ?a))). isWhiteSpace c"
    by (auto dest: set_takeWhileD)
qed

text \<open>
  Where the split cuts: after the one delimiter that follows a run of other characters. Delimiters
  before the run belong to no piece.
\<close>

lemma matchSentences_cut:
  assumes "\<forall>c \<in> set ds. isDelim c" and "run \<noteq> []" and "\<forall>c \<in> set run. \<not> isDelim c"
    and "isDelim d"
  shows "matchSentences (ds @ run @ d # rest) = (run @ [d]) # matchSentences rest"
proof -
  obtain c cs where run: "run = c # cs" using assms(2) by (cases run) auto
  have c: "\<not> isDelim c" using assms(3) by (simp add: run)
  have "dropWhile isDelim (ds @ run @ d # rest) = dropWhile isDelim (run @ d # rest)"
    by (rule dropWhile_append2) (use assms(1) in blast)
  also have "\<dots> = c # (cs @ d # rest)" using c by (simp add: run)
  finally have a: "dropWhile isDelim (ds @ run @ d # rest) = c # (cs @ d # rest)" .
  have nd: "\<not> \<not> isDelim d" using assms(4) by simp
  have "takeWhile (\<lambda>x. \<not> isDelim x) (run @ d # rest) = takeWhile (\<lambda>x. \<not> isDelim x) run"
    using nd by (rule takeWhile_tail [of "\<lambda>x. \<not> isDelim x" d run rest])
  moreover have "takeWhile (\<lambda>x. \<not> isDelim x) run = run"
    using assms(3) by simp
  ultimately have "takeWhile (\<lambda>x. \<not> isDelim x) (run @ d # rest) = run"
    by (simp only:)
  then have t: "takeWhile (\<lambda>x. \<not> isDelim x) (c # (cs @ d # rest)) = run"
    by (simp only: run append_Cons)
  have "dropWhile (\<lambda>x. \<not> isDelim x) (run @ d # rest)
          = dropWhile (\<lambda>x. \<not> isDelim x) run @ d # rest"
    using nd by (rule dropWhile_append3 [of "\<lambda>x. \<not> isDelim x" d run rest])
  moreover have "dropWhile (\<lambda>x. \<not> isDelim x) run = []"
    using assms(3) by simp
  ultimately have "dropWhile (\<lambda>x. \<not> isDelim x) (run @ d # rest) = d # rest"
    by (simp only: append_Nil)
  then have b: "dropWhile (\<lambda>x. \<not> isDelim x) (c # (cs @ d # rest)) = d # rest"
    by (simp only: run append_Cons)
  show ?thesis
    unfolding matchSentences_more [OF a b] t ..
qed

lemma matchSentences_end:
  assumes "\<forall>c \<in> set ds. isDelim c" and "run \<noteq> []" and "\<forall>c \<in> set run. \<not> isDelim c"
  shows "matchSentences (ds @ run) = [run]"
proof -
  obtain c cs where run: "run = c # cs" using assms(2) by (cases run) auto
  have c: "\<not> isDelim c" using assms(3) by (simp add: run)
  have "dropWhile isDelim (ds @ run) = dropWhile isDelim run"
    by (rule dropWhile_append2) (use assms(1) in blast)
  also have "\<dots> = c # cs" using c by (simp add: run)
  finally have a: "dropWhile isDelim (ds @ run) = c # cs" .
  have t: "takeWhile (\<lambda>x. \<not> isDelim x) (c # cs) = run"
    using assms(3) unfolding run by (intro takeWhile_eq_all_conv [THEN iffD2]) 
  have b: "dropWhile (\<lambda>x. \<not> isDelim x) (c # cs) = []"
    using assms(3) unfolding run by (intro dropWhile_eq_Nil_conv [THEN iffD2])
  show ?thesis
    unfolding matchSentences_last [OF a b] t ..
qed

lemma matchSentences_delims:
  assumes "\<forall>c \<in> set ds. isDelim c"
  shows "matchSentences ds = []"
  using assms by (simp only: matchSentences_Nil_iff)

text \<open>The calls only append: the queue of a sequence of calls is the concatenation of what each adds.\<close>

lemma addToQueue_append:
  "addToQueue cardId str shouldSplit q = q @ addToQueue cardId str shouldSplit []"
proof (cases str)
  case None
  then show ?thesis by (simp add: addToQueue_blank)
next
  case (Some t)
  show ?thesis
  proof (cases "trim t = []")
    case True
    then show ?thesis by (simp add: Some addToQueue_blank)
  next
    case False
    then show ?thesis
      by (cases shouldSplit) (simp_all add: Some addToQueue_split addToQueue_whole)
  qed
qed

lemma foldl_addToQueue_append:
  "foldl (\<lambda>q (cardId, str, shouldSplit). addToQueue cardId str shouldSplit q) q calls
     = q @ foldl (\<lambda>q (cardId, str, shouldSplit). addToQueue cardId str shouldSplit q) [] calls"
proof (induction calls rule: rev_induct)
  case Nil
  then show ?case by simp
next
  case (snoc call calls)
  obtain cardId str shouldSplit where call: "call = (cardId, str, shouldSplit)"
    by (cases call) auto
  show ?case
    unfolding foldl_append foldl.simps call prod.case
    by (subst addToQueue_append, subst snoc.IH, subst (2) addToQueue_append) simp
qed

lemma addAll_Nil: "addAll [] = []"
  by (simp add: addAll_def)

lemma addAll_Cons:
  "addAll ((cardId, str, shouldSplit) # calls) = addToQueue cardId str shouldSplit [] @ addAll calls"
  unfolding addAll_def foldl.simps prod.case
  by (subst foldl_addToQueue_append) simp

lemma addAll_append: "addAll (xs @ ys) = addAll xs @ addAll ys"
  unfolding addAll_def foldl_append
  by (subst foldl_addToQueue_append) simp

lemma addAll_points:
  "addAll (map (\<lambda>point. (cardId, Some point, True)) points)
     = concat (map (\<lambda>point. addToQueue cardId (Some point) True []) points)"
  by (induction points) (simp_all add: addAll_Nil addAll_Cons)

lemma addToQueue_literal:
  "\<not> isWhiteSpace c \<Longrightarrow> addToQueue cardId (Some (c # s)) False [] = [(cardId, c # s)]"
  using addToQueue_whole [of "c # s" cardId "[]"] trim_Nil_iff [of "c # s"] by auto

text \<open>The queue, section by section.\<close>

lemma buildQueue_units:
  "buildQueue result =
     [(''right-wing'', ''Right-Wing Perspective.''),
      (''right-wing'', ''Title: '' @ title (rightWingArticle result)),
      (''right-wing'', ''Source: '' @ articleSource (rightWingArticle result)),
      (''right-wing'', ''Summary:'')]
     @ addToQueue ''right-wing'' (Some (summary (rightWingArticle result))) True []
     @ [(''right-wing'', ''Narrative and Spin Analysis:'')]
     @ addToQueue ''right-wing'' (spinAnalysis (rightWingArticle result)) True []
     @ [(''left-wing'', ''Left-Wing Perspective.''),
        (''left-wing'', ''Title: '' @ title (leftWingArticle result)),
        (''left-wing'', ''Source: '' @ articleSource (leftWingArticle result)),
        (''left-wing'', ''Summary:'')]
     @ addToQueue ''left-wing'' (Some (summary (leftWingArticle result))) True []
     @ [(''left-wing'', ''Portrayal of Right-Wing View:'')]
     @ addToQueue ''left-wing'' (portrayalOfRight (leftWingArticle result)) True []
     @ [(''leftist-points'', ''Leftist Talking Points.'')]
     @ concat (map (\<lambda>point. addToQueue ''leftist-points'' (Some point) True [])
                (leftistTalkingPoints result))
     @ [(''socialist-points'', ''Socialist Talking Points.'')]
     @ concat (map (\<lambda>point. addToQueue ''socialist-points'' (Some point) True [])
                (socialistTalkingPoints result))"
  by (simp add: buildQueue_def addAll_append addAll_Cons addAll_Nil addAll_points
      addToQueue_literal isWhiteSpace_def)

lemma buildQueue_article_units:
  "buildQueue_article result =
     [(''article-details'', ''Analyzing the article: '' @ refTitle (analysedArticle result) @ ''.''),
      (''article-details'', ''Source: '' @ refSource (analysedArticle result) @ ''.''),
      (''article-details'', ''Category: '' @ category result @ ''.''),
      (''article-details'', ''Popularity Score: '' @ score (popularity result) @ ''.'')]
     @ addToQueue ''article-details'' (Some (justification (popularity result))) True []
     @ [(''left-wing'', ''Left-Wing Perspective.'')]
     @ addToQueue ''left-wing'' (Some (perspectiveSummary (leftWingPerspective result))) True []
     @ [(''left-wing'', ''Key talking points include:'')]
     @ concat (map (\<lambda>point. addToQueue ''left-wing'' (Some point) True [])
                (talkingPoints (leftWingPerspective result)))
     @ [(''right-wing'', ''Right-Wing Perspective.'')]
     @ addToQueue ''right-wing'' (Some (perspectiveSummary (rightWingPerspective result))) True []
     @ [(''right-wing'', ''Key talking points include:'')]
     @ concat (map (\<lambda>point. addToQueue ''right-wing'' (Some point) True [])
                (talkingPoints (rightWingPerspective result)))
     @ [(''socialist'', ''Socialist Perspective.'')]
     @ addToQueue ''socialist'' (Some (perspectiveSummary (socialistPerspective result))) True []
     @ [(''socialist'', ''Key talking points include:'')]
     @ concat (map (\<lambda>point. addToQueue ''socialist'' (Some point) True [])
                (talkingPoints (socialistPerspective result)))"
  by (simp add: buildQueue_article_def addAll_append addAll_Cons addAll_Nil addAll_points
      addToQueue_literal isWhiteSpace_def)

lemma sentences_of_alt:
  "sentences_of t = (if \<forall>c \<in> set t. isDelim c then [t] else matchSentences t)"
  using matchSentences_Nil_iff [of t] by (auto simp: sentences_of_def split: list.splits)

lemma example_queue:
  "buildQueue example_analysis =
     [(''right-wing'', ''Right-Wing Perspective.''),
      (''right-wing'', ''Title: Spending cut''),
      (''right-wing'', ''Source: Fox News''),
      (''right-wing'', ''Summary:''),
      (''right-wing'', ''Taxes fall.''),
      (''right-wing'', ''Really?''),
      (''right-wing'', ''Yes.''),
      (''right-wing'', ''Narrative and Spin Analysis:''),
      (''right-wing'', ''.''),
      (''left-wing'', ''Left-Wing Perspective.''),
      (''left-wing'', ''Title: Services cut''),
      (''left-wing'', ''Source: CNN''),
      (''left-wing'', ''Summary:''),
      (''left-wing'', ''Portrayal of Right-Wing View:''),
      (''left-wing'', ''They call it reform''),
      (''leftist-points'', ''Leftist Talking Points.''),
      (''leftist-points'', ''Who pays?''),
      (''leftist-points'', ''Workers.''),
      (''leftist-points'', ''...''),
      (''socialist-points'', ''Socialist Talking Points.'')]"
  by code_simp


section \<open>Facts about the analysis pipeline\<close>

lemma readProp_update:
  "readProp (JObj (AList.update k v al)) k' = (if k' = k then v else readProp (JObj al) k')"
  by (simp add: update_conv')

lemma normalizeArticle_fields:
  assumes "truthy article"
  shows "fst (normalizeArticle now article) =
           JObj (AList.update ''publishedAt''
                  (js_or (js_or (readProp article ''publishedAt'') (readProp article ''publication_date''))
                     (JStr now))
                  (spread article))"
    and "snd (normalizeArticle now article) =
           (if truthy (js_or (readProp article ''publishedAt'') (readProp article ''publication_date''))
            then [] else [ConsoleWarn ''Article missing publication date:'' article])"
  using assms by (simp_all add: normalizeArticle_def Let_def)

lemma ge2_length: "ge2 pf (readProp (JArr (a # b # others)) ''length'')"
  by (simp add: ge2_def)

lemma classifyArticles_objects:
  assumes "classifyResponse = Inr classifyText"
    and "safeParseJson (JSON_parse pf) classifyText = Inr classification"
    and "getProp classification ''rightWingArticleSource'' = Inr rightSource"
  shows "classifyArticles pf (JArr (JObj a # JObj b # others)) classifyResponse =
           (if toStringThrows (readProp (JObj a) ''title'')
               \<or> toStringThrows (readProp (JObj a) ''source'')
               \<or> toStringThrows (readProp (JObj b) ''title'')
               \<or> toStringThrows (readProp (JObj b) ''source'')
            then Inl TypeError
            else if strict_eq (readProp (JObj a) ''source'') rightSource
            then Inr (fst (normalizeArticle (nowISO pf 0) (JObj a)),
                      fst (normalizeArticle (nowISO pf 1) (JObj b)))
            else Inr (fst (normalizeArticle (nowISO pf 0) (JObj b)),
                      fst (normalizeArticle (nowISO pf 1) (JObj a))))"
  using assms by (simp add: classifyArticles_def getProp_def Let_def del: readProp.simps)

lemma findArticles_undifferentiated:
  assumes "\<not> (truthy (readProp (JObj kvs) ''rightWingArticle'')
              \<and> truthy (readProp (JObj kvs) ''leftWingArticle''))"
    and "readProp (JObj kvs) ''articles'' = JArr (a # b # others)"
  shows "findArticles pf (JObj kvs) classifyResponse =
           classifyArticles pf (JArr (a # b # others)) classifyResponse"
  using assms ge2_length [of pf a b others]
  by (auto simp: findArticles_def getProp_def simp del: readProp.simps)

lemma findArticles_first_two:
  assumes "map_of kvs ''articles'' = Some (JArr (a # b # others))"
  shows "findArticles pf (JObj kvs) classifyResponse =
           findArticles pf (JObj (AList.update ''articles'' (JArr [a, b]) kvs)) classifyResponse"
proof -
  have "classifyArticles pf (JArr (a # b # others)) classifyResponse =
          classifyArticles pf (JArr [a, b]) classifyResponse"
    by (simp add: classifyArticles_def)
  then show ?thesis
    using assms ge2_length [of pf a b others] ge2_length [of pf a b "[]"]
    by (simp add: findArticles_def getProp_def update_conv' del: readProp.simps(2))
qed

text \<open>
  A \<^verbatim>\<open>null\<close> among the first two articles of an undifferentiated list ends the
  branch while the prompt is built, whatever the other article and the replies are.
\<close>

lemma classifyArticles_null:
  assumes "a = JNull \<or> b = JNull"
  shows "classifyArticles pf (JArr (a # b # others)) classifyResponse = Inl TypeError"
  using assms by (auto simp: classifyArticles_def getProp_def)

lemma runAnalysis_getAnalysis:
  "runAnalysis pf ai subject = Inl err \<Longrightarrow>
     error (getAnalysis pf ai subject st) = Some err \<and> analysis (getAnalysis pf ai subject st) = None"
  by (simp add: getAnalysis_def Let_def)

section \<open>Claims\<close>

text \<open>
  C1. \<open>safeParseJson\<close> takes the text from the first \<^verbatim>\<open>{\<close> to the last
  \<^verbatim>\<open>}\<close> of its input, whatever surrounds it, and hands it to
  \<^verbatim>\<open>JSON.parse\<close>: the result is the parsed value, or the malformed-response
  error when that text does not parse. An input with no \<^verbatim>\<open>{\<close> followed later by a
  \<^verbatim>\<open>}\<close> always gives the malformed-response error. On
  \<^verbatim>\<open>here is json: {"a":1} thanks\<close> the text handed to the parser is
  \<^verbatim>\<open>{"a":1}\<close>.
\<close>

theorem C1_safeParseJson_extracts:
  "(CHR ''{'' \<notin> set pre \<and> CHR ''}'' \<notin> set post \<longrightarrow>
      safeParseJson P (pre @ CHR ''{'' # mid @ CHR ''}'' # post) =
        (case P (CHR ''{'' # mid @ [CHR ''}'']) of
           None \<Rightarrow> Inl MalformedResponse | Some v \<Rightarrow> Inr v))
   \<and> (\<not> (\<exists>pre' mid' post'. s = pre' @ CHR ''{'' # mid' @ CHR ''}'' # post') \<longrightarrow>
        safeParseJson P s = Inl MalformedResponse)
   \<and> (safeParseJson P s = Inl MalformedResponse \<or> (\<exists>v. safeParseJson P s = Inr v))
   \<and> safeParseJson P
        (''here is json: '' @ [CHR ''{'', CHR 0x22, CHR ''a'', CHR 0x22, CHR '':'', CHR ''1'', CHR ''}'']
           @ '' thanks'') =
        (case P [CHR ''{'', CHR 0x22, CHR ''a'', CHR 0x22, CHR '':'', CHR ''1'', CHR ''}''] of
           None \<Rightarrow> Inl MalformedResponse | Some v \<Rightarrow> Inr v)"
proof (intro conjI impI)
  assume "CHR ''{'' \<notin> set pre \<and> CHR ''}'' \<notin> set post"
  then show "safeParseJson P (pre @ CHR ''{'' # mid @ CHR ''}'' # post) =
        (case P (CHR ''{'' # mid @ [CHR ''}'']) of
           None \<Rightarrow> Inl MalformedResponse | Some v \<Rightarrow> Inr v)"
    using safeParseJson_found by blast
next
  assume "\<not> (\<exists>pre' mid' post'. s = pre' @ CHR ''{'' # mid' @ CHR ''}'' # post')"
  then show "safeParseJson P s = Inl MalformedResponse"
    by (rule safeParseJson_not_found)
next
  show "safeParseJson P s = Inl MalformedResponse \<or> (\<exists>v. safeParseJson P s = Inr v)"
    by (auto simp: safeParseJson_def Let_def split: option.splits)
next
  have "safeParseJson P (''here is json: '' @ CHR ''{'' # [CHR 0x22, CHR ''a'', CHR 0x22, CHR '':'', CHR ''1'']
          @ CHR ''}'' # '' thanks'') =
        (case P (CHR ''{'' # [CHR 0x22, CHR ''a'', CHR 0x22, CHR '':'', CHR ''1''] @ [CHR ''}'']) of
           None \<Rightarrow> Inl MalformedResponse | Some v \<Rightarrow> Inr v)"
    by (rule safeParseJson_found) simp_all
  then show "safeParseJson P
        (''here is json: '' @ [CHR ''{'', CHR 0x22, CHR ''a'', CHR 0x22, CHR '':'', CHR ''1'', CHR ''}'']
           @ '' thanks'') =
        (case P [CHR ''{'', CHR 0x22, CHR ''a'', CHR 0x22, CHR '':'', CHR ''1'', CHR ''}''] of
           None \<Rightarrow> Inl MalformedResponse | Some v \<Rightarrow> Inr v)"
    by simp
qed

theorem C1_safeParseJson_extracts_witness:
  "safeParseJson parse_example
     (''here is json: '' @ [CHR ''{'', CHR 0x22, CHR ''a'', CHR 0x22, CHR '':'', CHR ''1'', CHR ''}'']
        @ '' thanks'') = Inr (JObj [(''a'', JNum 1)])
   \<and> safeParseJson parse_example ''no braces here'' = Inl MalformedResponse"
proof -
  have h1: "CHR ''{'' \<notin> set ''here is json: '' \<and> CHR ''}'' \<notin> set '' thanks''"
    by simp
  have h2: "\<not> (\<exists>pre' mid' post'. ''no braces here'' = pre' @ CHR ''{'' # mid' @ CHR ''}'' # post')"
  proof
    assume "\<exists>pre' mid' post'. ''no braces here'' = pre' @ CHR ''{'' # mid' @ CHR ''}'' # post'"
    then obtain pre' mid' post' where
      e: "''no braces here'' = pre' @ CHR ''{'' # mid' @ CHR ''}'' # post'" by blast
    have "CHR ''{'' \<in> set (pre' @ CHR ''{'' # mid' @ CHR ''}'' # post')" by simp
    then have "CHR ''{'' \<in> set ''no braces here''" by (simp only: e [symmetric])
    then show False by simp
  qed
  from C1_safeParseJson_extracts
         [of "''here is json: ''" "'' thanks''" parse_example
             "[CHR 0x22, CHR ''a'', CHR 0x22, CHR '':'', CHR ''1'']" "''no braces here''"]
       h1 h2
  show ?thesis by (simp add: parse_example_def)
qed

text \<open>
  C2. After a successful \<open>fetchHeadlines\<close>, no headline of the latest list has the text of a
  headline that remains in the left or in the right list: the lists are filtered by equality of the
  headline text.
\<close>

theorem C2_latest_absent_from_side_lists:
  assumes "fetchHeadlines getTime (Some parsedJson) st = st'"
  shows "\<exists>latest hs. latestHeadlines st' = Some latest \<and> headlines st' = Some hs
           \<and> headlinesError st' = None
           \<and> (\<forall>h \<in> set latest. \<forall>g \<in> set (leftHeadlines hs) \<union> set (rightHeadlines hs).
                 headline g \<noteq> headline h)"
  using assms
  by (auto simp: fetchHeadlines_def Let_def sortHeadlines_def set_js_sort)

theorem C2_latest_absent_from_side_lists_witness:
  "latestHeadlines (fetchHeadlines getTime_example (Some repeated_response) initial_headlines_state)
     = Some [mk_headline ''X'' ''CNN'' ''2025-08-27'', mk_headline ''R'' ''Daily Wire'' ''2025-08-26'']
   \<and> headlines (fetchHeadlines getTime_example (Some repeated_response) initial_headlines_state)
     = Some \<lparr>leftHeadlines = [mk_headline ''L'' ''MSNBC'' ''2025-08-01''], rightHeadlines = []\<rparr>
   \<and> (\<exists>latest hs.
         latestHeadlines (fetchHeadlines getTime_example (Some repeated_response) initial_headlines_state)
           = Some latest
         \<and> headlines (fetchHeadlines getTime_example (Some repeated_response) initial_headlines_state)
           = Some hs
         \<and> headlinesError (fetchHeadlines getTime_example (Some repeated_response) initial_headlines_state)
           = None
         \<and> (\<forall>h \<in> set latest. \<forall>g \<in> set (leftHeadlines hs) \<union> set (rightHeadlines hs).
               headline g \<noteq> headline h))"
proof -
  let ?st = "fetchHeadlines getTime_example (Some repeated_response) initial_headlines_state"
  have "latestHeadlines ?st
     = Some [mk_headline ''X'' ''CNN'' ''2025-08-27'', mk_headline ''R'' ''Daily Wire'' ''2025-08-26'']"
    by (simp add: fetchHeadlines_def Let_def repeated_response_def
      initial_headlines_state_def mk_headline_def getTime_example_def compareByDate_def)
  moreover have "headlines ?st
     = Some \<lparr>leftHeadlines = [mk_headline ''L'' ''MSNBC'' ''2025-08-01''], rightHeadlines = []\<rparr>"
    by (simp add: fetchHeadlines_def Let_def repeated_response_def sortHeadlines_def
      initial_headlines_state_def mk_headline_def getTime_example_def compareByDate_def)
  ultimately show ?thesis
    using C2_latest_absent_from_side_lists
            [OF refl, of getTime_example repeated_response initial_headlines_state]
    by blast
qed

text \<open>
  C3, under two provisos. When the response holds at least two headlines and every
  \<^verbatim>\<open>publishedAt\<close> is a date, the latest list of a successful \<open>fetchHeadlines\<close> is
  exactly the two most recently published headlines of the two lists pooled, the more recent first,
  and no headline with the text of one of them remains in the left or the right list.
\<close>

theorem C3_latest_two_most_recent_dated:
  assumes "\<forall>h \<in> set (leftHeadlines r) \<union> set (rightHeadlines r). getTime (publishedAt h) \<noteq> None"
    and "2 \<le> length (leftHeadlines r) + length (rightHeadlines r)"
    and "fetchHeadlines getTime (Some r) st = st'"
  shows "\<exists>latest hs. latestHeadlines st' = Some latest \<and> headlines st' = Some hs
           \<and> two_most_recent getTime (leftHeadlines r @ rightHeadlines r) latest
           \<and> (\<forall>h \<in> set latest. \<forall>g \<in> set (leftHeadlines hs) \<union> set (rightHeadlines hs).
                 headline g \<noteq> headline h)"
proof -
  let ?pool = "leftHeadlines r @ rightHeadlines r"
  have "two_most_recent getTime ?pool (take 2 (js_sort (compareByDate getTime) ?pool))"
    using assms(1,2) by (intro latest_two_most_recent) auto
  with assms(3) show ?thesis
    by (auto simp: fetchHeadlines_def Let_def sortHeadlines_def set_js_sort)
qed

text \<open>
  Both provisos are needed. With two undated headlines before a dated one, every comparison is
  \<^verbatim>\<open>NaN\<close>, the sort leaves the pool as it is, and the latest list is the two undated
  headlines while the only dated one stays in its side list; with a single headline in the
  response the latest list has one element.
\<close>

theorem C3_counterexample:
  "latestHeadlines (fetchHeadlines getTime_example (Some undated_response) initial_headlines_state)
     = Some [mk_headline ''A'' ''CNN'' ''yesterday'', mk_headline ''B'' ''MSNBC'' ''n/a'']
   \<and> \<not> two_most_recent getTime_example
         (leftHeadlines undated_response @ rightHeadlines undated_response)
         [mk_headline ''A'' ''CNN'' ''yesterday'', mk_headline ''B'' ''MSNBC'' ''n/a'']
   \<and> latestHeadlines (fetchHeadlines getTime_example (Some single_response) initial_headlines_state)
     = Some [mk_headline ''C'' ''CNN'' ''2025-08-20'']
   \<and> \<not> two_most_recent getTime_example
         (leftHeadlines single_response @ rightHeadlines single_response)
         [mk_headline ''C'' ''CNN'' ''2025-08-20'']"
  by (simp add: fetchHeadlines_def Let_def undated_response_def single_response_def
      initial_headlines_state_def mk_headline_def getTime_example_def compareByDate_def
      two_most_recent_def not_older_def)

theorem C3_latest_two_most_recent_dated_witness:
  "latestHeadlines (fetchHeadlines getTime_example (Some scenario_response) initial_headlines_state)
     = Some [mk_headline ''L2'' ''MSNBC'' ''2025-08-27'', mk_headline ''R3'' ''FOX News'' ''2025-08-27'']
   \<and> two_most_recent getTime_example
         (leftHeadlines scenario_response @ rightHeadlines scenario_response)
         [mk_headline ''L2'' ''MSNBC'' ''2025-08-27'', mk_headline ''R3'' ''FOX News'' ''2025-08-27'']
   \<and> headlines (fetchHeadlines getTime_example (Some scenario_response) initial_headlines_state)
     = Some \<lparr>leftHeadlines =
               [mk_headline ''L5'' ''CNN'' ''2025-08-25'', mk_headline ''L1'' ''CNN'' ''2025-08-20'',
                mk_headline ''L3'' ''CNN'' ''2025-08-01'', mk_headline ''L4'' ''MSNBC'' ''2025-07-15''],
             rightHeadlines =
               [mk_headline ''R5'' ''FOX News'' ''2025-08-15'', mk_headline ''R2'' ''Daily Wire'' ''2025-08-10'',
                mk_headline ''R4'' ''Daily Wire'' ''2025-07-04'', mk_headline ''R1'' ''FOX News'' ''2025-06-30'']\<rparr>"
proof -
  let ?st = "fetchHeadlines getTime_example (Some scenario_response) initial_headlines_state"
  have valid: "\<forall>h \<in> set (leftHeadlines scenario_response) \<union> set (rightHeadlines scenario_response).
      getTime_example (publishedAt h) \<noteq> None"
    by (simp add: scenario_response_def mk_headline_def getTime_example_def)
  have two: "2 \<le> length (leftHeadlines scenario_response) + length (rightHeadlines scenario_response)"
    by (simp add: scenario_response_def)
  have latest: "latestHeadlines ?st
     = Some [mk_headline ''L2'' ''MSNBC'' ''2025-08-27'', mk_headline ''R3'' ''FOX News'' ''2025-08-27'']"
    by (simp add: fetchHeadlines_def Let_def scenario_response_def
      initial_headlines_state_def mk_headline_def getTime_example_def compareByDate_def)
  have sides: "headlines ?st
     = Some \<lparr>leftHeadlines =
               [mk_headline ''L5'' ''CNN'' ''2025-08-25'', mk_headline ''L1'' ''CNN'' ''2025-08-20'',
                mk_headline ''L3'' ''CNN'' ''2025-08-01'', mk_headline ''L4'' ''MSNBC'' ''2025-07-15''],
             rightHeadlines =
               [mk_headline ''R5'' ''FOX News'' ''2025-08-15'', mk_headline ''R2'' ''Daily Wire'' ''2025-08-10'',
                mk_headline ''R4'' ''Daily Wire'' ''2025-07-04'', mk_headline ''R1'' ''FOX News'' ''2025-06-30'']\<rparr>"
    by (simp add: fetchHeadlines_def Let_def scenario_response_def sortHeadlines_def
      initial_headlines_state_def mk_headline_def getTime_example_def compareByDate_def)
  from C3_latest_two_most_recent_dated [OF valid two refl, of initial_headlines_state] latest sides
  show ?thesis by auto
qed

text \<open>
  C4. In the branch for an undifferentiated list of at least two article objects, once the
  classification reply has been parsed and names a source string: when the source of the first
  article is that string, the first article becomes the right-leaning one and the second the
  left-leaning one; when the source of the first is not that string and the source of the second
  is, the second becomes the right-leaning one and the first the left-leaning one. Both are
  normalized on the way. The classification is asked for, and its reply read, only when the prompt
  could be built from the titles and sources of the two articles; when one of the four has no
  string (an object with a \<^verbatim>\<open>toString\<close> key of its own) the branch ends with a
  \<^verbatim>\<open>TypeError\<close> instead and no reply exists.
\<close>

theorem C4_sides_by_exact_source:
  assumes "\<not> (truthy (readProp (JObj kvs) ''rightWingArticle'')
              \<and> truthy (readProp (JObj kvs) ''leftWingArticle''))"
    and "readProp (JObj kvs) ''articles'' = JArr (JObj a # JObj b # others)"
    and "classifyResponse = Inr classifyText"
    and "safeParseJson (JSON_parse pf) classifyText = Inr classification"
    and "getProp classification ''rightWingArticleSource'' = Inr (JStr rightSource)"
  shows "(readProp (JObj a) ''source'' = JStr rightSource \<longrightarrow>
            findArticles pf (JObj kvs) classifyResponse =
              (if toStringThrows (readProp (JObj a) ''title'')
                  \<or> toStringThrows (readProp (JObj b) ''title'')
                  \<or> toStringThrows (readProp (JObj b) ''source'')
               then Inl TypeError
               else Inr (fst (normalizeArticle (nowISO pf 0) (JObj a)),
                         fst (normalizeArticle (nowISO pf 1) (JObj b)))))
       \<and> (readProp (JObj a) ''source'' \<noteq> JStr rightSource
            \<and> readProp (JObj b) ''source'' = JStr rightSource \<longrightarrow>
            findArticles pf (JObj kvs) classifyResponse =
              (if toStringThrows (readProp (JObj a) ''title'')
                  \<or> toStringThrows (readProp (JObj a) ''source'')
                  \<or> toStringThrows (readProp (JObj b) ''title'')
               then Inl TypeError
               else Inr (fst (normalizeArticle (nowISO pf 0) (JObj b)),
                         fst (normalizeArticle (nowISO pf 1) (JObj a)))))"
proof -
  have eq: "strict_eq v (JStr rightSource) \<longleftrightarrow> v = JStr rightSource" for v
    by (cases v) auto
  show ?thesis
    unfolding findArticles_undifferentiated [OF assms(1,2)]
      classifyArticles_objects [OF assms(3,4,5)] eq
    by auto
qed

theorem C4_sides_by_exact_source_witness:
  "findArticles example_platform
     (JObj [(''articles'', JArr [JObj article_A, JObj article_B])]) (Inr classify_fox)
     = Inr (JObj [(''title'', JStr ''A''), (''source'', JStr ''Fox News''),
                  (''publishedAt'', JStr ''2025-08-28T12:00:00.000Z'')],
            JObj [(''title'', JStr ''B''), (''source'', JStr ''CNN''),
                  (''publishedAt'', JStr ''2025-08-28T12:00:00.000Z'')])"
proof -
  let ?kvs = "[(''articles'', JArr [JObj article_A, JObj article_B])]"
  have h1: "\<not> (truthy (readProp (JObj ?kvs) ''rightWingArticle'')
              \<and> truthy (readProp (JObj ?kvs) ''leftWingArticle''))"
    by simp
  have h2: "readProp (JObj ?kvs) ''articles'' = JArr (JObj article_A # JObj article_B # [])"
    by simp
  have h4: "safeParseJson (JSON_parse example_platform) classify_fox
              = Inr (JObj [(''rightWingArticleSource'', JStr ''Fox News'')])"
    by (simp add: example_platform_def example_parse_def safeParseJson_def lastIndexOf_def
        substring_def classify_fox_def classify_other_def  untitled_json_def
        dq_def Let_def)
  have h5: "getProp (JObj [(''rightWingArticleSource'', JStr ''Fox News'')]) ''rightWingArticleSource''
              = Inr (JStr ''Fox News'')"
    by (simp add: getProp_def)
  have src: "readProp (JObj article_A) ''source'' = JStr ''Fox News''"
    by (simp add: article_A_def)
  have strings: "\<not> (toStringThrows (readProp (JObj article_A) ''title'')
                    \<or> toStringThrows (readProp (JObj article_B) ''title'')
                    \<or> toStringThrows (readProp (JObj article_B) ''source''))"
    by (simp add: article_A_def article_B_def)
  from C4_sides_by_exact_source [OF h1 h2 refl h4 h5] src strings
  show ?thesis
    by (simp add: normalizeArticle_def example_platform_def article_A_def article_B_def
        js_or_def Let_def)
qed

text \<open>
  C5. For an article that \<open>normalizeArticle\<close> does not reject: with neither a
  \<^verbatim>\<open>publishedAt\<close> nor a \<^verbatim>\<open>publication_date\<close> the result's
  \<^verbatim>\<open>publishedAt\<close> is the time of the call and one warning naming the article is
  written to the console; a \<^verbatim>\<open>publishedAt\<close> that is there is kept, a
  \<^verbatim>\<open>publication_date\<close> takes its place when it is not, both without a warning;
  and the other properties of an article object are unchanged.
\<close>

theorem C5_normalizeArticle_date:
  assumes "truthy article"
  shows "(\<not> truthy (readProp article ''publishedAt'') \<and> \<not> truthy (readProp article ''publication_date'') \<longrightarrow>
            readProp (fst (normalizeArticle now article)) ''publishedAt'' = JStr now
            \<and> snd (normalizeArticle now article) = [ConsoleWarn ''Article missing publication date:'' article])
       \<and> (truthy (readProp article ''publishedAt'') \<longrightarrow>
            readProp (fst (normalizeArticle now article)) ''publishedAt'' = readProp article ''publishedAt''
            \<and> snd (normalizeArticle now article) = [])
       \<and> (\<not> truthy (readProp article ''publishedAt'') \<and> truthy (readProp article ''publication_date'') \<longrightarrow>
            readProp (fst (normalizeArticle now article)) ''publishedAt'' = readProp article ''publication_date''
            \<and> snd (normalizeArticle now article) = [])
       \<and> (\<forall>kvs k. article = JObj kvs \<and> k \<noteq> ''publishedAt'' \<longrightarrow>
            readProp (fst (normalizeArticle now article)) k = readProp article k)"
  using assms
  by (auto simp: normalizeArticle_fields readProp_update js_or_def simp del: readProp.simps)

theorem C5_normalizeArticle_date_witness:
  "readProp (fst (normalizeArticle ''2025-08-28T12:00:00.000Z'' (JObj article_A))) ''publishedAt''
     = JStr ''2025-08-28T12:00:00.000Z''
   \<and> snd (normalizeArticle ''2025-08-28T12:00:00.000Z'' (JObj article_A))
     = [ConsoleWarn ''Article missing publication date:'' (JObj article_A)]
   \<and> readProp (fst (normalizeArticle ''2025-08-28T12:00:00.000Z''
          (JObj [(''title'', JStr ''A''), (''publishedAt'', JStr ''2025-07-04'')]))) ''publishedAt''
     = JStr ''2025-07-04''
   \<and> readProp (fst (normalizeArticle ''2025-08-28T12:00:00.000Z''
          (JObj [(''title'', JStr ''A''), (''publication_date'', JStr ''2025-07-04'')]))) ''publishedAt''
     = JStr ''2025-07-04''
   \<and> readProp (fst (normalizeArticle ''2025-08-28T12:00:00.000Z'' (JObj article_A))) ''title''
     = JStr ''A''"
proof -
  have t: "truthy (JObj kvs)" for kvs by simp
  note a = C5_normalizeArticle_date [OF t, of article_A "''2025-08-28T12:00:00.000Z''"]
  note b = C5_normalizeArticle_date
             [OF t, of "[(''title'', JStr ''A''), (''publishedAt'', JStr ''2025-07-04'')]"
                "''2025-08-28T12:00:00.000Z''"]
  note c = C5_normalizeArticle_date
             [OF t, of "[(''title'', JStr ''A''), (''publication_date'', JStr ''2025-07-04'')]"
                "''2025-08-28T12:00:00.000Z''"]
  have a1: "readProp (fst (normalizeArticle ''2025-08-28T12:00:00.000Z'' (JObj article_A))) ''publishedAt''
     = JStr ''2025-08-28T12:00:00.000Z''
   \<and> snd (normalizeArticle ''2025-08-28T12:00:00.000Z'' (JObj article_A))
     = [ConsoleWarn ''Article missing publication date:'' (JObj article_A)]"
    using a [THEN conjunct1] by (simp add: article_A_def)
  have a2: "readProp (fst (normalizeArticle ''2025-08-28T12:00:00.000Z'' (JObj article_A))) ''title''
     = JStr ''A''"
    using a [THEN conjunct2, THEN conjunct2, THEN conjunct2, rule_format, of article_A "''title''"]
    by (simp add: article_A_def)
  have b1: "readProp (fst (normalizeArticle ''2025-08-28T12:00:00.000Z''
          (JObj [(''title'', JStr ''A''), (''publishedAt'', JStr ''2025-07-04'')]))) ''publishedAt''
     = JStr ''2025-07-04''"
    using b [THEN conjunct2, THEN conjunct1] by simp
  have c1: "readProp (fst (normalizeArticle ''2025-08-28T12:00:00.000Z''
          (JObj [(''title'', JStr ''A''), (''publication_date'', JStr ''2025-07-04'')]))) ''publishedAt''
     = JStr ''2025-07-04''"
    using c [THEN conjunct2, THEN conjunct2, THEN conjunct1] by simp
  from a1 a2 b1 c1 show ?thesis by simp
qed

text \<open>
  C6. What \<open>getAnalysis\<close> does when an article or a title is missing. When the two articles
  have been determined and the check of lines 324 to 332 is reached with either of them missing or
  without a title, the run ends with the error that asks for a different headline and with no
  analysis in the state, as the claim says. The check is not always reached: when the missing
  article is a \<^verbatim>\<open>null\<close> among the first two of an undifferentiated list, building the
  classification prompt reads \<^verbatim>\<open>articlesToClassify[i].title\<close> of
  \<^verbatim>\<open>null\<close>, and the run ends with that \<^verbatim>\<open>TypeError\<close>, whose message
  the page shows, in the place of the error of the claim. \<open>normalizeArticle\<close>, which the
  branch calls a few lines later, guards against a missing article
  (\<^verbatim>\<open>if (!article) return null;\<close>), and a missing article in the form with two keys, or
  one given as \<^verbatim>\<open>false\<close> in the list, does reach the check.
\<close>

theorem C6_missing_article_outcome:
  assumes "clientReady ai"
    and "searchReply ai = Inr searchText"
    and "safeParseJson (JSON_parse pf) searchText = Inr parsedResponse"
  shows "(findArticles pf parsedResponse (classifyReply ai) = Inr (rightArticle, leftArticle)
          \<and> (\<not> truthy rightArticle \<or> \<not> truthy leftArticle
               \<or> \<not> truthy (readProp rightArticle ''title'')
               \<or> \<not> truthy (readProp leftArticle ''title'')) \<longrightarrow>
            runAnalysis pf ai subject = Inl ArticlesNotFound
            \<and> error (getAnalysis pf ai subject st) = Some ArticlesNotFound
            \<and> analysis (getAnalysis pf ai subject st) = None)
       \<and> (parsedResponse = JObj kvs
          \<and> \<not> (truthy (readProp (JObj kvs) ''rightWingArticle'')
                \<and> truthy (readProp (JObj kvs) ''leftWingArticle''))
          \<and> readProp (JObj kvs) ''articles'' = JArr (a # b # others)
          \<and> (a = JNull \<or> b = JNull) \<longrightarrow>
            runAnalysis pf ai subject = Inl TypeError
            \<and> error (getAnalysis pf ai subject st) = Some TypeError
            \<and> error (getAnalysis pf ai subject st) \<noteq> Some ArticlesNotFound
            \<and> analysis (getAnalysis pf ai subject st) = None)"
proof (intro conjI impI)
  assume found: "findArticles pf parsedResponse (classifyReply ai) = Inr (rightArticle, leftArticle)
          \<and> (\<not> truthy rightArticle \<or> \<not> truthy leftArticle
               \<or> \<not> truthy (readProp rightArticle ''title'')
               \<or> \<not> truthy (readProp leftArticle ''title''))"
  then show run: "runAnalysis pf ai subject = Inl ArticlesNotFound"
    using assms by (auto simp: runAnalysis_def)
  from runAnalysis_getAnalysis [OF run]
  show "error (getAnalysis pf ai subject st) = Some ArticlesNotFound"
    and "analysis (getAnalysis pf ai subject st) = None"
    by simp_all
next
  assume null: "parsedResponse = JObj kvs
          \<and> \<not> (truthy (readProp (JObj kvs) ''rightWingArticle'')
                \<and> truthy (readProp (JObj kvs) ''leftWingArticle''))
          \<and> readProp (JObj kvs) ''articles'' = JArr (a # b # others)
          \<and> (a = JNull \<or> b = JNull)"
  then have "findArticles pf parsedResponse (classifyReply ai)
               = classifyArticles pf (JArr (a # b # others)) (classifyReply ai)"
    using findArticles_undifferentiated [of kvs a b others pf "classifyReply ai"] by blast
  also have "\<dots> = Inl TypeError"
    using null by (intro classifyArticles_null) blast
  finally show run: "runAnalysis pf ai subject = Inl TypeError"
    using assms by (simp add: runAnalysis_def)
  from runAnalysis_getAnalysis [OF run]
  show "error (getAnalysis pf ai subject st) = Some TypeError"
    and "analysis (getAnalysis pf ai subject st) = None"
    by simp_all
  from runAnalysis_getAnalysis [OF run]
  show "error (getAnalysis pf ai subject st) \<noteq> Some ArticlesNotFound"
    by (simp add: ArticlesNotFound_def)
qed

theorem C6_missing_article_outcome_witness:
  "error (getAnalysis example_platform null_list_service ''topic'' initial_analysis_state)
     = Some TypeError
   \<and> analysis (getAnalysis example_platform null_list_service ''topic'' initial_analysis_state)
     = None
   \<and> error (getAnalysis example_platform false_list_service ''topic'' initial_analysis_state)
     = Some ArticlesNotFound
   \<and> error (getAnalysis example_platform untitled_service ''topic'' initial_analysis_state)
     = Some ArticlesNotFound
   \<and> analysis (getAnalysis example_platform untitled_service ''topic'' initial_analysis_state)
     = None"
proof -
  let ?B = "JObj [(''title'', JStr ''B''), (''source'', JStr ''CNN'')]"
  let ?Bn = "JObj [(''title'', JStr ''B''), (''source'', JStr ''CNN''),
                   (''publishedAt'', JStr ''2025-08-28T12:00:00.000Z'')]"
  have n1: "clientReady null_list_service" by (simp add: null_list_service_def)
  have n2: "searchReply null_list_service = Inr null_list_json"
    by (simp add: null_list_service_def)
  have n3: "safeParseJson (JSON_parse example_platform) null_list_json
              = Inr (JObj [(''articles'', JArr [JNull, ?B])])"
    by (simp add: example_platform_def example_parse_def safeParseJson_def lastIndexOf_def
        substring_def classify_fox_def classify_other_def untitled_json_def null_list_json_def
        false_list_json_def article_B_def dq_def Let_def)
  have n4: "JObj [(''articles'', JArr [JNull, ?B])] = JObj [(''articles'', JArr [JNull, ?B])]
          \<and> \<not> (truthy (readProp (JObj [(''articles'', JArr [JNull, ?B])]) ''rightWingArticle'')
                \<and> truthy (readProp (JObj [(''articles'', JArr [JNull, ?B])]) ''leftWingArticle''))
          \<and> readProp (JObj [(''articles'', JArr [JNull, ?B])]) ''articles'' = JArr (JNull # ?B # [])
          \<and> (JNull = JNull \<or> ?B = JNull)"
    by simp
  note null = mp [OF C6_missing_article_outcome
                       [where kvs = "[(''articles'', JArr [JNull, ?B])]" and a = JNull and b = ?B
                          and others = "[]" and subject = "''topic''"
                          and st = initial_analysis_state,
                        OF n1 n2 n3, THEN conjunct2]
                     n4]
  have f1: "clientReady false_list_service" by (simp add: false_list_service_def)
  have f2: "searchReply false_list_service = Inr false_list_json"
    by (simp add: false_list_service_def)
  have f3: "safeParseJson (JSON_parse example_platform) false_list_json
              = Inr (JObj [(''articles'', JArr [JBool False, ?B])])"
    by (simp add: example_platform_def example_parse_def safeParseJson_def lastIndexOf_def
        substring_def classify_fox_def classify_other_def untitled_json_def null_list_json_def
        false_list_json_def article_B_def dq_def Let_def)
  have f4: "safeParseJson (JSON_parse example_platform) classify_fox
              = Inr (JObj [(''rightWingArticleSource'', JStr ''Fox News'')])"
    by (simp add: example_platform_def example_parse_def safeParseJson_def lastIndexOf_def
        substring_def classify_fox_def classify_other_def untitled_json_def
        dq_def Let_def)
  have f5: "findArticles example_platform (JObj [(''articles'', JArr [JBool False, ?B])])
              (classifyReply false_list_service) = Inr (?Bn, JNull)"
    by (simp add: findArticles_def classifyArticles_def f4 getProp_def ge2_def
        normalizeArticle_def false_list_service_def js_or_def Let_def)
      (simp add: example_platform_def)
  have f6: "findArticles example_platform (JObj [(''articles'', JArr [JBool False, ?B])])
              (classifyReply false_list_service) = Inr (?Bn, JNull)
          \<and> (\<not> truthy ?Bn \<or> \<not> truthy JNull \<or> \<not> truthy (readProp ?Bn ''title'')
               \<or> \<not> truthy (readProp JNull ''title''))"
    using f5 by simp
  note false = mp [OF C6_missing_article_outcome
                        [where rightArticle = ?Bn and leftArticle = JNull
                           and subject = "''topic''" and st = initial_analysis_state,
                         OF f1 f2 f3, THEN conjunct1]
                      f6]
  let ?pr = "JObj [(''rightWingArticle'', JObj [(''source'', JStr ''Fox News'')]),
                   (''leftWingArticle'', JObj [(''title'', JStr ''B'')])]"
  let ?r = "JObj [(''source'', JStr ''Fox News''), (''publishedAt'', JStr ''2025-08-28T12:00:00.000Z'')]"
  let ?l = "JObj [(''title'', JStr ''B''), (''publishedAt'', JStr ''2025-08-28T12:00:00.000Z'')]"
  have h1: "clientReady untitled_service" by (simp add: untitled_service_def)
  have h2: "searchReply untitled_service = Inr untitled_json" by (simp add: untitled_service_def)
  have h3: "safeParseJson (JSON_parse example_platform) untitled_json = Inr ?pr"
    by (simp add: example_platform_def example_parse_def safeParseJson_def lastIndexOf_def
        substring_def classify_fox_def classify_other_def  untitled_json_def
        dq_def Let_def)
  have h4: "findArticles example_platform ?pr (classifyReply untitled_service) = Inr (?r, ?l)
          \<and> (\<not> truthy ?r \<or> \<not> truthy ?l \<or> \<not> truthy (readProp ?r ''title'')
               \<or> \<not> truthy (readProp ?l ''title''))"
    by (simp add: findArticles_def getProp_def normalizeArticle_def example_platform_def
        js_or_def Let_def)
  note untitled = mp [OF C6_missing_article_outcome
                           [where rightArticle = ?r and leftArticle = ?l
                              and subject = "''topic''" and st = initial_analysis_state,
                            OF h1 h2 h3, THEN conjunct1]
                         h4]
  from null false untitled show ?thesis by simp
qed

text \<open>
  C7, with the cut points as the pattern has them. The queue is a function of the analysis alone:
  the fixed headings in their order, each followed by what \<open>addToQueue\<close> makes of the text
  of its section, in both variants of the builder; a call only appends to the queue. No item has a
  text that is empty or only white space. A text that is blank or absent adds nothing; a text not
  marked for splitting is added as it is. A text marked for splitting adds the pieces of
  \<open>sentences_of\<close>, each trimmed (white space, and nothing else, taken from both ends), the
  empty ones dropped. The pieces are the matches of the pattern, or the whole text when it has no
  character other than the delimiters. A match is a longest run of characters that are no
  delimiters together with the one delimiter that follows it, if any: the text is cut right after
  that delimiter, further delimiters before the next run belong to no piece, and so do delimiters
  at the start of the text. Hence every match but the last ends with its delimiter, and the
  matches together hold every character of the text that is no delimiter, in order.
\<close>

theorem C7_queue_units:
  "(\<forall>item \<in> set (buildQueue result). trim (snd item) \<noteq> [])
   \<and> (\<forall>item \<in> set (buildQueue_article articleResult). trim (snd item) \<noteq> [])
   \<and> (trim t \<noteq> [] \<longrightarrow>
        addToQueue cardId (Some t) True q =
          q @ map (Pair cardId) (filter (\<lambda>u. u \<noteq> []) (map trim (sentences_of t))))
   \<and> (trim t \<noteq> [] \<longrightarrow> addToQueue cardId (Some t) False q = q @ [(cardId, t)])
   \<and> (trim t = [] \<longrightarrow> addToQueue cardId (Some t) shouldSplit q = q)
   \<and> addToQueue cardId None shouldSplit q = q
   \<and> (trim t \<noteq> [] \<longrightarrow> \<not> isWhiteSpace (hd (trim t)) \<and> \<not> isWhiteSpace (last (trim t)))
   \<and> sentences_of t = (if \<forall>c \<in> set t. isDelim c then [t] else matchSentences t)
   \<and> (\<forall>f \<in> set (matchSentences t). sentence_shaped f)
   \<and> (\<forall>f \<in> set (butlast (matchSentences t)). isDelim (last f))
   \<and> filter (\<lambda>c. \<not> isDelim c) (concat (matchSentences t)) = filter (\<lambda>c. \<not> isDelim c) t
   \<and> ((\<forall>c \<in> set ds. isDelim c) \<and> run \<noteq> [] \<and> (\<forall>c \<in> set run. \<not> isDelim c) \<and> isDelim d \<longrightarrow>
        matchSentences (ds @ run @ d # rest) = (run @ [d]) # matchSentences rest)
   \<and> ((\<forall>c \<in> set ds. isDelim c) \<and> run \<noteq> [] \<and> (\<forall>c \<in> set run. \<not> isDelim c) \<longrightarrow>
        matchSentences (ds @ run) = [run])
   \<and> ((\<forall>c \<in> set ds. isDelim c) \<longrightarrow> matchSentences ds = [])
   \<and> (\<exists>pre post. t = pre @ trim t @ post
          \<and> (\<forall>c \<in> set pre. isWhiteSpace c) \<and> (\<forall>c \<in> set post. isWhiteSpace c))
   \<and> addToQueue cardId str shouldSplit q = q @ addToQueue cardId str shouldSplit []
   \<and> buildQueue result =
       [(''right-wing'', ''Right-Wing Perspective.''),
        (''right-wing'', ''Title: '' @ title (rightWingArticle result)),
        (''right-wing'', ''Source: '' @ articleSource (rightWingArticle result)),
        (''right-wing'', ''Summary:'')]
       @ addToQueue ''right-wing'' (Some (summary (rightWingArticle result))) True []
       @ [(''right-wing'', ''Narrative and Spin Analysis:'')]
       @ addToQueue ''right-wing'' (spinAnalysis (rightWingArticle result)) True []
       @ [(''left-wing'', ''Left-Wing Perspective.''),
          (''left-wing'', ''Title: '' @ title (leftWingArticle result)),
          (''left-wing'', ''Source: '' @ articleSource (leftWingArticle result)),
          (''left-wing'', ''Summary:'')]
       @ addToQueue ''left-wing'' (Some (summary (leftWingArticle result))) True []
       @ [(''left-wing'', ''Portrayal of Right-Wing View:'')]
       @ addToQueue ''left-wing'' (portrayalOfRight (leftWingArticle result)) True []
       @ [(''leftist-points'', ''Leftist Talking Points.'')]
       @ concat (map (\<lambda>point. addToQueue ''leftist-points'' (Some point) True [])
                  (leftistTalkingPoints result))
       @ [(''socialist-points'', ''Socialist Talking Points.'')]
       @ concat (map (\<lambda>point. addToQueue ''socialist-points'' (Some point) True [])
                  (socialistTalkingPoints result))
   \<and> buildQueue_article articleResult =
       [(''article-details'',
           ''Analyzing the article: '' @ refTitle (analysedArticle articleResult) @ ''.''),
        (''article-details'', ''Source: '' @ refSource (analysedArticle articleResult) @ ''.''),
        (''article-details'', ''Category: '' @ category articleResult @ ''.''),
        (''article-details'', ''Popularity Score: '' @ score (popularity articleResult) @ ''.'')]
       @ addToQueue ''article-details'' (Some (justification (popularity articleResult))) True []
       @ [(''left-wing'', ''Left-Wing Perspective.'')]
       @ addToQueue ''left-wing'' (Some (perspectiveSummary (leftWingPerspective articleResult))) True []
       @ [(''left-wing'', ''Key talking points include:'')]
       @ concat (map (\<lambda>point. addToQueue ''left-wing'' (Some point) True [])
                  (talkingPoints (leftWingPerspective articleResult)))
       @ [(''right-wing'', ''Right-Wing Perspective.'')]
       @ addToQueue ''right-wing'' (Some (perspectiveSummary (rightWingPerspective articleResult))) True []
       @ [(''right-wing'', ''Key talking points include:'')]
       @ concat (map (\<lambda>point. addToQueue ''right-wing'' (Some point) True [])
                  (talkingPoints (rightWingPerspective articleResult)))
       @ [(''socialist'', ''Socialist Perspective.'')]
       @ addToQueue ''socialist'' (Some (perspectiveSummary (socialistPerspective articleResult))) True []
       @ [(''socialist'', ''Key talking points include:'')]
       @ concat (map (\<lambda>point. addToQueue ''socialist'' (Some point) True [])
                  (talkingPoints (socialistPerspective articleResult)))"
proof (intro conjI impI)
  show "\<forall>item \<in> set (buildQueue result). trim (snd item) \<noteq> []"
    unfolding buildQueue_def by (rule addAll_not_blank)
  show "\<forall>item \<in> set (buildQueue_article articleResult). trim (snd item) \<noteq> []"
    unfolding buildQueue_article_def by (rule addAll_not_blank)
  show "addToQueue cardId (Some t) True q =
          q @ map (Pair cardId) (filter (\<lambda>u. u \<noteq> []) (map trim (sentences_of t)))"
    if "trim t \<noteq> []" using that by (rule addToQueue_split)
  show "addToQueue cardId (Some t) False q = q @ [(cardId, t)]"
    if "trim t \<noteq> []" using that by (rule addToQueue_whole)
  show "addToQueue cardId (Some t) shouldSplit q = q" if "trim t = []"
    using that by (rule addToQueue_blank)
  show "addToQueue cardId None shouldSplit q = q" by (rule addToQueue_blank)
  show "\<not> isWhiteSpace (hd (trim t))" if "trim t \<noteq> []" using that by (rule trim_hd)
  show "\<not> isWhiteSpace (last (trim t))" if "trim t \<noteq> []" using that by (rule trim_last)
  show "sentences_of t = (if \<forall>c \<in> set t. isDelim c then [t] else matchSentences t)"
    by (rule sentences_of_alt)
  show "\<forall>f \<in> set (matchSentences t). sentence_shaped f" by (rule matchSentences_shape)
  show "\<forall>f \<in> set (butlast (matchSentences t)). isDelim (last f)"
    by (rule matchSentences_delimited)
  show "filter (\<lambda>c. \<not> isDelim c) (concat (matchSentences t)) = filter (\<lambda>c. \<not> isDelim c) t"
    by (rule matchSentences_keeps_prose)
  show "matchSentences (ds @ run @ d # rest) = (run @ [d]) # matchSentences rest"
    if "(\<forall>c \<in> set ds. isDelim c) \<and> run \<noteq> [] \<and> (\<forall>c \<in> set run. \<not> isDelim c) \<and> isDelim d"
    using that by (intro matchSentences_cut) blast+
  show "matchSentences (ds @ run) = [run]"
    if "(\<forall>c \<in> set ds. isDelim c) \<and> run \<noteq> [] \<and> (\<forall>c \<in> set run. \<not> isDelim c)"
    using that by (intro matchSentences_end) blast+
  show "matchSentences ds = []" if "\<forall>c \<in> set ds. isDelim c"
    using that by (rule matchSentences_delims)
  show "\<exists>pre post. t = pre @ trim t @ post
          \<and> (\<forall>c \<in> set pre. isWhiteSpace c) \<and> (\<forall>c \<in> set post. isWhiteSpace c)"
    by (rule trim_decompose)
  show "addToQueue cardId str shouldSplit q = q @ addToQueue cardId str shouldSplit []"
    by (rule addToQueue_append)
  show "buildQueue result =
       [(''right-wing'', ''Right-Wing Perspective.''),
        (''right-wing'', ''Title: '' @ title (rightWingArticle result)),
        (''right-wing'', ''Source: '' @ articleSource (rightWingArticle result)),
        (''right-wing'', ''Summary:'')]
       @ addToQueue ''right-wing'' (Some (summary (rightWingArticle result))) True []
       @ [(''right-wing'', ''Narrative and Spin Analysis:'')]
       @ addToQueue ''right-wing'' (spinAnalysis (rightWingArticle result)) True []
       @ [(''left-wing'', ''Left-Wing Perspective.''),
          (''left-wing'', ''Title: '' @ title (leftWingArticle result)),
          (''left-wing'', ''Source: '' @ articleSource (leftWingArticle result)),
          (''left-wing'', ''Summary:'')]
       @ addToQueue ''left-wing'' (Some (summary (leftWingArticle result))) True []
       @ [(''left-wing'', ''Portrayal of Right-Wing View:'')]
       @ addToQueue ''left-wing'' (portrayalOfRight (leftWingArticle result)) True []
       @ [(''leftist-points'', ''Leftist Talking Points.'')]
       @ concat (map (\<lambda>point. addToQueue ''leftist-points'' (Some point) True [])
                  (leftistTalkingPoints result))
       @ [(''socialist-points'', ''Socialist Talking Points.'')]
       @ concat (map (\<lambda>point. addToQueue ''socialist-points'' (Some point) True [])
                  (socialistTalkingPoints result))"
    by (rule buildQueue_units)
  show "buildQueue_article articleResult =
       [(''article-details'',
           ''Analyzing the article: '' @ refTitle (analysedArticle articleResult) @ ''.''),
        (''article-details'', ''Source: '' @ refSource (analysedArticle articleResult) @ ''.''),
        (''article-details'', ''Category: '' @ category articleResult @ ''.''),
        (''article-details'', ''Popularity Score: '' @ score (popularity articleResult) @ ''.'')]
       @ addToQueue ''article-details'' (Some (justification (popularity articleResult))) True []
       @ [(''left-wing'', ''Left-Wing Perspective.'')]
       @ addToQueue ''left-wing'' (Some (perspectiveSummary (leftWingPerspective articleResult))) True []
       @ [(''left-wing'', ''Key talking points include:'')]
       @ concat (map (\<lambda>point. addToQueue ''left-wing'' (Some point) True [])
                  (talkingPoints (leftWingPerspective articleResult)))
       @ [(''right-wing'', ''Right-Wing Perspective.'')]
       @ addToQueue ''right-wing'' (Some (perspectiveSummary (rightWingPerspective articleResult))) True []
       @ [(''right-wing'', ''Key talking points include:'')]
       @ concat (map (\<lambda>point. addToQueue ''right-wing'' (Some point) True [])
                  (talkingPoints (rightWingPerspective articleResult)))
       @ [(''socialist'', ''Socialist Perspective.'')]
       @ addToQueue ''socialist'' (Some (perspectiveSummary (socialistPerspective articleResult))) True []
       @ [(''socialist'', ''Key talking points include:'')]
       @ concat (map (\<lambda>point. addToQueue ''socialist'' (Some point) True [])
                  (talkingPoints (socialistPerspective articleResult)))"
    by (rule buildQueue_article_units)
qed

text \<open>
  The wording of the claim, a split on the delimiters that retains them, is not what the pattern
  does where delimiters follow one another. On \<^verbatim>\<open>Really?!\<close> the queue gets the one
  unit \<^verbatim>\<open>Really?\<close> and the exclamation mark is in no unit, where the split of the
  wording gives \<^verbatim>\<open>Really?\<close> and \<^verbatim>\<open>!\<close>; and \<^verbatim>\<open>...\<close>,
  which the pattern does not match at all, is queued whole, where the split of the wording gives
  three units.
\<close>

theorem C7_counterexample:
  "addToQueue ''right-wing'' (Some ''Really?!'') True [] = [(''right-wing'', ''Really?'')]
   \<and> CHR ''!'' \<notin> set (concat (map snd (addToQueue ''right-wing'' (Some ''Really?!'') True [])))
   \<and> map (Pair ''right-wing'') (spec_fragments ''Really?!'')
       = [(''right-wing'', ''Really?''), (''right-wing'', ''!'')]
   \<and> addToQueue ''right-wing'' (Some ''Really?!'') True []
       \<noteq> map (Pair ''right-wing'') (spec_fragments ''Really?!'')
   \<and> addToQueue ''right-wing'' (Some ''...'') True [] = [(''right-wing'', ''...'')]
   \<and> map (Pair ''right-wing'') (spec_fragments ''...'')
       = [(''right-wing'', ''.''), (''right-wing'', ''.''), (''right-wing'', ''.'')]"
proof -
  have a: "addToQueue ''right-wing'' (Some ''Really?!'') True [] = [(''right-wing'', ''Really?'')]"
    by code_simp
  have b: "map (Pair ''right-wing'') (spec_fragments ''Really?!'')
             = [(''right-wing'', ''Really?''), (''right-wing'', ''!'')]"
    by code_simp
  have c: "addToQueue ''right-wing'' (Some ''...'') True [] = [(''right-wing'', ''...'')]"
    by code_simp
  have d: "map (Pair ''right-wing'') (spec_fragments ''...'')
             = [(''right-wing'', ''.''), (''right-wing'', ''.''), (''right-wing'', ''.'')]"
    by code_simp
  show ?thesis unfolding a b c d by simp
qed

theorem C7_queue_units_witness:
  "buildQueue example_analysis =
     [(''right-wing'', ''Right-Wing Perspective.''),
      (''right-wing'', ''Title: Spending cut''),
      (''right-wing'', ''Source: Fox News''),
      (''right-wing'', ''Summary:''),
      (''right-wing'', ''Taxes fall.''),
      (''right-wing'', ''Really?''),
      (''right-wing'', ''Yes.''),
      (''right-wing'', ''Narrative and Spin Analysis:''),
      (''right-wing'', ''.''),
      (''left-wing'', ''Left-Wing Perspective.''),
      (''left-wing'', ''Title: Services cut''),
      (''left-wing'', ''Source: CNN''),
      (''left-wing'', ''Summary:''),
      (''left-wing'', ''Portrayal of Right-Wing View:''),
      (''left-wing'', ''They call it reform''),
      (''leftist-points'', ''Leftist Talking Points.''),
      (''leftist-points'', ''Who pays?''),
      (''leftist-points'', ''Workers.''),
      (''leftist-points'', ''...''),
      (''socialist-points'', ''Socialist Talking Points.'')]
   \<and> list_all (\<lambda>item. trim (snd item) \<noteq> []) (buildQueue example_analysis)
   \<and> addToQueue ''right-wing'' (Some ''Taxes fall. Really?! Yes...  '') True []
       = [(''right-wing'', ''Taxes fall.''), (''right-wing'', ''Really?''), (''right-wing'', ''Yes.'')]
   \<and> addToQueue ''left-wing'' (Some ''   '') True [] = []
   \<and> sentence_shaped ''Taxes fall.''
   \<and> matchSentences ''?!Really?! Yes'' = [''Really?'', '' Yes'']"
proof -
  let ?t = "''Taxes fall. Really?! Yes...  ''"
  note units = C7_queue_units [of example_analysis _ ?t "''right-wing''" "[]" True]
  note blank = C7_queue_units [of example_analysis _ "''   ''" "''left-wing''" "[]" True]
  have nonblank: "trim ?t \<noteq> []" by code_simp
  have pieces: "map (Pair ''right-wing'') (filter (\<lambda>u. u \<noteq> []) (map trim (sentences_of ?t)))
      = [(''right-wing'', ''Taxes fall.''), (''right-wing'', ''Really?''), (''right-wing'', ''Yes.'')]"
    by code_simp
  have a: "addToQueue ''right-wing'' (Some ?t) True []
       = [(''right-wing'', ''Taxes fall.''), (''right-wing'', ''Really?''), (''right-wing'', ''Yes.'')]"
    using units [THEN conjunct2, THEN conjunct2, THEN conjunct1] nonblank pieces by simp
  have "trim ''   '' = []" by code_simp
  then have b: "addToQueue ''left-wing'' (Some ''   '') True [] = []"
    using blank [THEN conjunct2, THEN conjunct2, THEN conjunct2, THEN conjunct2, THEN conjunct1]
    by blast
  have first: "matchSentences ?t = [''Taxes fall.'', '' Really?'', '' Yes.'', ''  '']"
    by code_simp
  have c: "sentence_shaped ''Taxes fall.''"
    using units [THEN conjunct2, THEN conjunct2, THEN conjunct2, THEN conjunct2,
                 THEN conjunct2, THEN conjunct2, THEN conjunct2, THEN conjunct2, THEN conjunct1]
    unfolding first by simp
  have d: "list_all (\<lambda>item. trim (snd item) \<noteq> []) (buildQueue example_analysis)"
    using units [THEN conjunct1] by (simp only: list_all_iff)
  have cut: "matchSentences (''?!'' @ ''Really'' @ CHR ''?'' # ''! Yes'')
               = (''Really'' @ ''?'') # matchSentences ''! Yes''"
    using C7_queue_units
            [where ds = "''?!''" and run = "''Really''" and d = "CHR ''?''" and rest = "''! Yes''",
             THEN conjunct2, THEN conjunct2, THEN conjunct2, THEN conjunct2, THEN conjunct2,
             THEN conjunct2, THEN conjunct2, THEN conjunct2, THEN conjunct2, THEN conjunct2,
             THEN conjunct2, THEN conjunct1]
    by (simp add: isDelim_def)
  have tail: "matchSentences (''!'' @ '' Yes'') = ['' Yes'']"
    using C7_queue_units
            [where ds = "''!''" and run = "'' Yes''",
             THEN conjunct2, THEN conjunct2, THEN conjunct2, THEN conjunct2, THEN conjunct2,
             THEN conjunct2, THEN conjunct2, THEN conjunct2, THEN conjunct2, THEN conjunct2,
             THEN conjunct2, THEN conjunct2, THEN conjunct1]
    by (simp add: isDelim_def)
  have e: "matchSentences ''?!Really?! Yes'' = [''Really?'', '' Yes'']"
    using cut tail by simp
  from example_queue d a b c e show ?thesis by blast
qed

text \<open>
  C8. \<open>stopSpeech\<close>, from any state of the session, gives the stopped state with an empty
  queue, the index at \<open>0\<close> and no card marked as speaking; stopping a second time changes
  nothing. The same holds for the earliest variant of the function.
\<close>

theorem C8_stop:
  "globalSpeechState (stopSpeech s) = Stopped
   \<and> utterances (stopSpeech s) = []
   \<and> currentIndex (stopSpeech s) = 0
   \<and> currentlySpeakingCard (stopSpeech s) = None
   \<and> stopSpeech (stopSpeech s) = stopSpeech s
   \<and> globalSpeechState (stopSpeech_early s) = Stopped
   \<and> utterances (stopSpeech_early s) = []
   \<and> currentIndex (stopSpeech_early s) = 0
   \<and> currentlySpeakingCard (stopSpeech_early s) = None
   \<and> stopSpeech_early (stopSpeech_early s) = stopSpeech_early s"
  by (simp add: stopSpeech_def stopSpeech_early_def cancel_def Let_def)

text \<open>
  C9, with the end of the chain as the code has it. At the start of a narration the voice whose URI
  is the current selection is used, if the list has one; the selection is the user's choice or, by
  default, the one the loader makes when the voices arrive. \<open>getBestVoice\<close> follows the chain
  in order: the first name of \<open>premiumNames\<close> that an \<^verbatim>\<open>en-US\<close> voice of the
  list bears decides; without such a voice, the first local \<^verbatim>\<open>en-US\<close> voice;
  without one, the first \<^verbatim>\<open>en-US\<close> voice; without one, the first voice whose
  language starts with \<^verbatim>\<open>en\<close>; and none exactly when the list has no such voice.
  The loader selects the voice of \<open>getBestVoice\<close>, and the narration then uses it; when
  \<open>getBestVoice\<close> finds none the loader selects the first voice of the list, whatever its
  language, and the narration uses that one. No voice is used only when the list is empty. The chain
  of the earliest variant, whose first tier is an \<^verbatim>\<open>en-US\<close> voice with
  \<^verbatim>\<open>Google\<close> in its name, runs in the same order and has no such last step: it
  ends with none.
\<close>

theorem C9_voice_fallback_chain:
  "(case preferredVoice vs of
      Some v \<Rightarrow> v \<in> set (voices vs) \<and> voiceURI v = selectedVoiceURI vs
    | None \<Rightarrow> \<forall>v \<in> set (voices vs). voiceURI v \<noteq> selectedVoiceURI vs)
   \<and> (\<forall>i < length premiumNames.
          (\<exists>v \<in> set vcs. name v = premiumNames ! i \<and> lang v = ''en-US'') \<and>
          (\<forall>j < i. \<forall>v \<in> set vcs. \<not> (name v = premiumNames ! j \<and> lang v = ''en-US'')) \<longrightarrow>
          getBestVoice vcs = find (\<lambda>v. name v = premiumNames ! i \<and> lang v = ''en-US'') vcs)
   \<and> ((\<forall>n \<in> set premiumNames. \<forall>v \<in> set vcs. \<not> (name v = n \<and> lang v = ''en-US'')) \<longrightarrow>
        getBestVoice vcs =
          (if \<exists>v \<in> set vcs. lang v = ''en-US'' \<and> localService v
           then find (\<lambda>v. lang v = ''en-US'' \<and> localService v) vcs
           else if \<exists>v \<in> set vcs. lang v = ''en-US''
           then find (\<lambda>v. lang v = ''en-US'') vcs
           else find (\<lambda>v. startsWith (lang v) ''en'') vcs))
   \<and> (getBestVoice vcs = None \<longleftrightarrow> (\<forall>v \<in> set vcs. \<not> startsWith (lang v) ''en''))
   \<and> preferredVoice_early vcs =
        (if \<exists>v \<in> set vcs. str_includes (name v) ''Google'' \<and> lang v = ''en-US''
         then find (\<lambda>v. str_includes (name v) ''Google'' \<and> lang v = ''en-US'') vcs
         else if \<exists>v \<in> set vcs. lang v = ''en-US'' \<and> localService v
         then find (\<lambda>v. lang v = ''en-US'' \<and> localService v) vcs
         else if \<exists>v \<in> set vcs. lang v = ''en-US''
         then find (\<lambda>v. lang v = ''en-US'') vcs
         else find (\<lambda>v. startsWith (lang v) ''en'') vcs)
   \<and> (getBestVoice vcs = Some bestVoice \<longrightarrow>
        selectedVoiceURI (loadVoices vcs vs) = voiceURI bestVoice)
   \<and> (getBestVoice vcs = Some bestVoice \<longrightarrow>
        (\<exists>used. preferredVoice (loadVoices vcs vs) = Some used
           \<and> voiceURI used = voiceURI bestVoice
           \<and> (distinct (map voiceURI vcs) \<longrightarrow> used = bestVoice)))
   \<and> (getBestVoice (v0 # others) = None \<longrightarrow>
        selectedVoiceURI (loadVoices (v0 # others) vs) = voiceURI v0
        \<and> preferredVoice (loadVoices (v0 # others) vs) = Some v0)
   \<and> loadVoices [] vs = vs"
proof (intro conjI)
  show "case preferredVoice vs of
      Some v \<Rightarrow> v \<in> set (voices vs) \<and> voiceURI v = selectedVoiceURI vs
    | None \<Rightarrow> \<forall>v \<in> set (voices vs). voiceURI v \<noteq> selectedVoiceURI vs"
    by (auto simp: preferredVoice_def find_None_iff split: option.splits dest: find_SomeD)
next
  show "\<forall>i < length premiumNames.
          (\<exists>v \<in> set vcs. name v = premiumNames ! i \<and> lang v = ''en-US'') \<and>
          (\<forall>j < i. \<forall>v \<in> set vcs. \<not> (name v = premiumNames ! j \<and> lang v = ''en-US'')) \<longrightarrow>
          getBestVoice vcs = find (\<lambda>v. name v = premiumNames ! i \<and> lang v = ''en-US'') vcs"
  proof (intro allI impI, elim conjE)
    fix i
    assume i: "i < length premiumNames"
      and ex: "\<exists>v \<in> set vcs. name v = premiumNames ! i \<and> lang v = ''en-US''"
      and before: "\<forall>j < i. \<forall>v \<in> set vcs. \<not> (name v = premiumNames ! j \<and> lang v = ''en-US'')"
    from ex have ne: "vcs \<noteq> []" by auto
    from i ex have "firstPremium vcs premiumNames \<noteq> None"
      by (auto simp: firstPremium_None)
    then obtain v where v: "firstPremium vcs premiumNames = Some v" by auto
    from firstPremium_Some [OF this] obtain k where k: "k < length premiumNames"
      "find (\<lambda>w. name w = premiumNames ! k \<and> lang w = ''en-US'') vcs = Some v"
      "\<forall>j < k. \<forall>w \<in> set vcs. \<not> (name w = premiumNames ! j \<and> lang w = ''en-US'')" by blast
    have "k = i"
    proof (rule ccontr)
      assume "k \<noteq> i"
      then consider "k < i" | "i < k" by linarith
      then show False
      proof cases
        case 1
        with before find_SomeD [OF k(2)] show False by blast
      next
        case 2
        with k(3) ex show False by blast
      qed
    qed
    with k(2) v ne show "getBestVoice vcs = find (\<lambda>v. name v = premiumNames ! i \<and> lang v = ''en-US'') vcs"
      by (simp add: getBestVoice_def)
  qed
next
  show "(\<forall>n \<in> set premiumNames. \<forall>v \<in> set vcs. \<not> (name v = n \<and> lang v = ''en-US'')) \<longrightarrow>
        getBestVoice vcs =
          (if \<exists>v \<in> set vcs. lang v = ''en-US'' \<and> localService v
           then find (\<lambda>v. lang v = ''en-US'' \<and> localService v) vcs
           else if \<exists>v \<in> set vcs. lang v = ''en-US''
           then find (\<lambda>v. lang v = ''en-US'') vcs
           else find (\<lambda>v. startsWith (lang v) ''en'') vcs)"
  proof
    assume "\<forall>n \<in> set premiumNames. \<forall>v \<in> set vcs. \<not> (name v = n \<and> lang v = ''en-US'')"
    then have "firstPremium vcs premiumNames = None" by (simp add: firstPremium_None)
    then show "getBestVoice vcs =
          (if \<exists>v \<in> set vcs. lang v = ''en-US'' \<and> localService v
           then find (\<lambda>v. lang v = ''en-US'' \<and> localService v) vcs
           else if \<exists>v \<in> set vcs. lang v = ''en-US''
           then find (\<lambda>v. lang v = ''en-US'') vcs
           else find (\<lambda>v. startsWith (lang v) ''en'') vcs)"
      by (cases "vcs = []")
         (auto simp: getBestVoice_def find_None_iff split: option.splits dest: find_SomeD)
  qed
next
  show "getBestVoice vcs = None \<longleftrightarrow> (\<forall>v \<in> set vcs. \<not> startsWith (lang v) ''en'')"
  proof (cases "vcs = []")
    case True
    then show ?thesis by (simp add: getBestVoice_def)
  next
    case False
    show ?thesis
    proof
      assume "getBestVoice vcs = None"
      with False have "find (\<lambda>v. startsWith (lang v) ''en'') vcs = None"
        by (simp add: getBestVoice_def split: option.splits)
      then show "\<forall>v \<in> set vcs. \<not> startsWith (lang v) ''en''"
        by (simp add: find_None_iff)
    next
      assume no: "\<forall>v \<in> set vcs. \<not> startsWith (lang v) ''en''"
      then have us: "\<forall>v \<in> set vcs. lang v \<noteq> ''en-US''"
        using startsWith_en_US by metis
      then have "firstPremium vcs premiumNames = None"
        by (simp add: firstPremium_None)
      moreover have "find (\<lambda>v. lang v = ''en-US'' \<and> localService v) vcs = None"
        using us by (auto simp: find_None_iff)
      moreover have "find (\<lambda>v. lang v = ''en-US'') vcs = None"
        using us by (auto simp: find_None_iff)
      moreover have "find (\<lambda>v. startsWith (lang v) ''en'') vcs = None"
        using no by (auto simp: find_None_iff)
      ultimately show "getBestVoice vcs = None"
        by (simp add: getBestVoice_def)
    qed
  qed
next
  show "preferredVoice_early vcs =
        (if \<exists>v \<in> set vcs. str_includes (name v) ''Google'' \<and> lang v = ''en-US''
         then find (\<lambda>v. str_includes (name v) ''Google'' \<and> lang v = ''en-US'') vcs
         else if \<exists>v \<in> set vcs. lang v = ''en-US'' \<and> localService v
         then find (\<lambda>v. lang v = ''en-US'' \<and> localService v) vcs
         else if \<exists>v \<in> set vcs. lang v = ''en-US''
         then find (\<lambda>v. lang v = ''en-US'') vcs
         else find (\<lambda>v. startsWith (lang v) ''en'') vcs)"
    by (auto simp: preferredVoice_early_def find_None_iff split: option.splits dest: find_SomeD)
next
  show "getBestVoice vcs = Some bestVoice \<longrightarrow>
          selectedVoiceURI (loadVoices vcs vs) = voiceURI bestVoice"
    by (cases vcs) (simp_all add: getBestVoice_def loadVoices_def)
next
  show "getBestVoice vcs = Some bestVoice \<longrightarrow>
        (\<exists>used. preferredVoice (loadVoices vcs vs) = Some used
           \<and> voiceURI used = voiceURI bestVoice
           \<and> (distinct (map voiceURI vcs) \<longrightarrow> used = bestVoice))"
  proof
    assume best: "getBestVoice vcs = Some bestVoice"
    then have mem: "bestVoice \<in> set vcs" by (rule getBestVoice_member)
    then obtain v rest where vcs: "vcs = v # rest" by (cases vcs) auto
    have sel: "selectedVoiceURI (loadVoices vcs vs) = voiceURI bestVoice"
      and vl: "voices (loadVoices vcs vs) = vcs"
      using best by (simp_all add: vcs loadVoices_def)
    from mem have "find (\<lambda>w. voiceURI w = voiceURI bestVoice) vcs \<noteq> None"
      by (auto simp: find_None_iff)
    then obtain used where used: "find (\<lambda>w. voiceURI w = voiceURI bestVoice) vcs = Some used"
      by auto
    from find_SomeD [OF used] have u: "used \<in> set vcs" "voiceURI used = voiceURI bestVoice"
      by simp_all
    have "used = bestVoice" if "distinct (map voiceURI vcs)"
      using that u mem by (meson distinct_map inj_onD)
    with used u show "\<exists>used. preferredVoice (loadVoices vcs vs) = Some used
           \<and> voiceURI used = voiceURI bestVoice
           \<and> (distinct (map voiceURI vcs) \<longrightarrow> used = bestVoice)"
      by (simp add: preferredVoice_def sel vl)
  qed
next
  show "getBestVoice (v0 # others) = None \<longrightarrow>
        selectedVoiceURI (loadVoices (v0 # others) vs) = voiceURI v0
        \<and> preferredVoice (loadVoices (v0 # others) vs) = Some v0"
    by (simp add: loadVoices_def preferredVoice_def)
next
  show "loadVoices [] vs = vs" by (simp add: loadVoices_def)
qed

text \<open>
  The last step of the claim, "else none", is not what the selection does: with a single German
  voice no tier of the chain has a voice and \<open>getBestVoice\<close> finds none, yet the loader
  selects that voice and the narration uses it.
\<close>

theorem C9_counterexample:
  "\<not> startsWith (lang (mk_voice ''Anna'' ''de-DE'' True)) ''en''
   \<and> getBestVoice [mk_voice ''Anna'' ''de-DE'' True] = None
   \<and> selectedVoiceURI (loadVoices [mk_voice ''Anna'' ''de-DE'' True] initial_voice_state) = ''Anna''
   \<and> preferredVoice (loadVoices [mk_voice ''Anna'' ''de-DE'' True] initial_voice_state)
       = Some (mk_voice ''Anna'' ''de-DE'' True)
   \<and> preferredVoice (loadVoices [mk_voice ''Anna'' ''de-DE'' True] initial_voice_state) \<noteq> None
   \<and> preferredVoice_early [mk_voice ''Anna'' ''de-DE'' True] = None"
  by (simp add: getBestVoice_def premiumNames_def loadVoices_def preferredVoice_def
      preferredVoice_early_def initial_voice_state_def mk_voice_def startsWith_def)


theorem C9_voice_fallback_chain_witness:
  "preferredVoice \<lparr>voices = example_voices, selectedVoiceURI = ''Daniel''\<rparr>
     = Some (mk_voice ''Daniel'' ''en-GB'' True)
   \<and> getBestVoice example_voices = Some (mk_voice ''Samantha'' ''en-US'' False)
   \<and> getBestVoice [mk_voice ''Anna'' ''de-DE'' True, mk_voice ''Daniel'' ''en-GB'' True,
                    mk_voice ''Zira'' ''en-US'' False, mk_voice ''Mark'' ''en-US'' True]
       = Some (mk_voice ''Mark'' ''en-US'' True)
   \<and> getBestVoice [mk_voice ''Anna'' ''de-DE'' True] = None
   \<and> preferredVoice_early example_voices = Some (mk_voice ''Zira'' ''en-US'' True)
   \<and> selectedVoiceURI
         (loadVoices example_voices \<lparr>voices = example_voices, selectedVoiceURI = ''Daniel''\<rparr>)
       = ''Samantha''
   \<and> preferredVoice
         (loadVoices example_voices \<lparr>voices = example_voices, selectedVoiceURI = ''Daniel''\<rparr>)
       = Some (mk_voice ''Samantha'' ''en-US'' False)
   \<and> preferredVoice
         (loadVoices [mk_voice ''Anna'' ''de-DE'' True, mk_voice ''Ines'' ''pt-PT'' True]
            \<lparr>voices = example_voices, selectedVoiceURI = ''Daniel''\<rparr>)
       = Some (mk_voice ''Anna'' ''de-DE'' True)"
proof -
  let ?vs = "\<lparr>voices = example_voices, selectedVoiceURI = ''Daniel''\<rparr>"
  let ?us = "[mk_voice ''Anna'' ''de-DE'' True, mk_voice ''Daniel'' ''en-GB'' True,
              mk_voice ''Zira'' ''en-US'' False, mk_voice ''Mark'' ''en-US'' True]"
  note chain = C9_voice_fallback_chain [of ?vs example_voices]
  note chain_us = C9_voice_fallback_chain [of ?vs ?us]
  note chain_de = C9_voice_fallback_chain [of ?vs "[mk_voice ''Anna'' ''de-DE'' True]"]
  have a: "preferredVoice ?vs = Some (mk_voice ''Daniel'' ''en-GB'' True)"
    using chain [THEN conjunct1]
    by (simp add: preferredVoice_def example_voices_def mk_voice_def)
  have i: "2 < length premiumNames" by (simp add: premiumNames_def)
  have sam: "(\<exists>v \<in> set example_voices. name v = premiumNames ! 2 \<and> lang v = ''en-US'') \<and>
          (\<forall>j < 2. \<forall>v \<in> set example_voices. \<not> (name v = premiumNames ! j \<and> lang v = ''en-US''))"
    by (simp add: premiumNames_def example_voices_def mk_voice_def less_Suc_eq numeral_2_eq_2)
  have "getBestVoice example_voices =
          find (\<lambda>v. name v = premiumNames ! 2 \<and> lang v = ''en-US'') example_voices"
    using chain [THEN conjunct2, THEN conjunct1] i sam by blast
  then have b: "getBestVoice example_voices = Some (mk_voice ''Samantha'' ''en-US'' False)"
    by (simp add: premiumNames_def example_voices_def mk_voice_def)
  have none: "\<forall>n \<in> set premiumNames. \<forall>v \<in> set ?us. \<not> (name v = n \<and> lang v = ''en-US'')"
    by (simp add: premiumNames_def mk_voice_def)
  have c: "getBestVoice ?us = Some (mk_voice ''Mark'' ''en-US'' True)"
    using mp [OF chain_us [THEN conjunct2, THEN conjunct2, THEN conjunct1] none]
    by (simp add: mk_voice_def)
  have "\<forall>v \<in> set [mk_voice ''Anna'' ''de-DE'' True]. \<not> startsWith (lang v) ''en''"
    by (simp add: mk_voice_def startsWith_def)
  then have d: "getBestVoice [mk_voice ''Anna'' ''de-DE'' True] = None"
    using chain_de [THEN conjunct2, THEN conjunct2, THEN conjunct2, THEN conjunct1] by blast
  have e: "preferredVoice_early example_voices = Some (mk_voice ''Zira'' ''en-US'' True)"
    using chain [THEN conjunct2, THEN conjunct2, THEN conjunct2, THEN conjunct2, THEN conjunct1]
    by (simp add: example_voices_def mk_voice_def startsWith_def)
  have f: "selectedVoiceURI (loadVoices example_voices ?vs) = ''Samantha''"
    using chain [THEN conjunct2, THEN conjunct2, THEN conjunct2, THEN conjunct2, THEN conjunct2,
                 of "mk_voice ''Samantha'' ''en-US'' False"] b
    by (simp add: mk_voice_def)
  have "distinct (map voiceURI example_voices)"
    by (simp add: example_voices_def mk_voice_def)
  then have g: "preferredVoice (loadVoices example_voices ?vs)
                  = Some (mk_voice ''Samantha'' ''en-US'' False)"
    using mp [OF chain [THEN conjunct2, THEN conjunct2, THEN conjunct2, THEN conjunct2,
                        THEN conjunct2, THEN conjunct2, THEN conjunct1,
                        of "mk_voice ''Samantha'' ''en-US'' False"] b]
    by auto
  let ?de = "[mk_voice ''Anna'' ''de-DE'' True, mk_voice ''Ines'' ''pt-PT'' True]"
  have "\<forall>v \<in> set ?de. \<not> startsWith (lang v) ''en''"
    by (simp add: mk_voice_def startsWith_def)
  then have none_de: "getBestVoice ?de = None"
    using C9_voice_fallback_chain [of ?vs ?de, THEN conjunct2, THEN conjunct2, THEN conjunct2,
                                   THEN conjunct1]
    by blast
  have h: "preferredVoice (loadVoices ?de ?vs) = Some (mk_voice ''Anna'' ''de-DE'' True)"
    using mp [OF C9_voice_fallback_chain
                   [of ?vs _ _ "mk_voice ''Anna'' ''de-DE'' True" "[mk_voice ''Ines'' ''pt-PT'' True]",
                    THEN conjunct2, THEN conjunct2, THEN conjunct2, THEN conjunct2,
                    THEN conjunct2, THEN conjunct2, THEN conjunct2, THEN conjunct1]
              none_de]
    by simp
  from a b c d e f g h show ?thesis by simp
qed

text \<open>
  C10. In the same branch, when the source of the first article is not the value the
  classification names (in particular when neither source is), no error is raised: the second
  article becomes the right-leaning one and the first the left-leaning one. The articles after the
  second play no part: the result is that of the response cut to its first two articles. As in C4,
  a classification exists only when the prompt could be built; the one other outcome of the branch
  under these hypotheses is the \<^verbatim>\<open>TypeError\<close> of a title or source that has no
  string, raised before the request.
\<close>

theorem C10_no_match_defaults_to_second:
  assumes "\<not> (truthy (readProp (JObj kvs) ''rightWingArticle'')
              \<and> truthy (readProp (JObj kvs) ''leftWingArticle''))"
    and "map_of kvs ''articles'' = Some (JArr (JObj a # JObj b # others))"
    and "classifyResponse = Inr classifyText"
    and "safeParseJson (JSON_parse pf) classifyText = Inr classification"
    and "getProp classification ''rightWingArticleSource'' = Inr rightSource"
    and "\<not> strict_eq (readProp (JObj a) ''source'') rightSource"
  shows "findArticles pf (JObj kvs) classifyResponse =
           (if toStringThrows (readProp (JObj a) ''title'')
               \<or> toStringThrows (readProp (JObj a) ''source'')
               \<or> toStringThrows (readProp (JObj b) ''title'')
               \<or> toStringThrows (readProp (JObj b) ''source'')
            then Inl TypeError
            else Inr (fst (normalizeArticle (nowISO pf 0) (JObj b)),
                      fst (normalizeArticle (nowISO pf 1) (JObj a))))
       \<and> findArticles pf (JObj kvs) classifyResponse =
           findArticles pf (JObj (AList.update ''articles'' (JArr [JObj a, JObj b]) kvs))
             classifyResponse"
proof -
  have arts: "readProp (JObj kvs) ''articles'' = JArr (JObj a # JObj b # others)"
    using assms(2) by simp
  have "findArticles pf (JObj kvs) classifyResponse =
           (if toStringThrows (readProp (JObj a) ''title'')
               \<or> toStringThrows (readProp (JObj a) ''source'')
               \<or> toStringThrows (readProp (JObj b) ''title'')
               \<or> toStringThrows (readProp (JObj b) ''source'')
            then Inl TypeError
            else Inr (fst (normalizeArticle (nowISO pf 0) (JObj b)),
                      fst (normalizeArticle (nowISO pf 1) (JObj a))))"
    unfolding findArticles_undifferentiated [OF assms(1) arts]
      classifyArticles_objects [OF assms(3,4,5)]
    using assms(6) by simp
  then show ?thesis using findArticles_first_two [OF assms(2)] by simp
qed

theorem C10_no_match_defaults_to_second_witness:
  "findArticles example_platform
     (JObj [(''articles'', JArr [JObj article_A, JObj article_B, JObj [(''title'', JStr ''C'')]])])
     (Inr classify_other)
     = Inr (JObj [(''title'', JStr ''B''), (''source'', JStr ''CNN''),
                  (''publishedAt'', JStr ''2025-08-28T12:00:00.000Z'')],
            JObj [(''title'', JStr ''A''), (''source'', JStr ''Fox News''),
                  (''publishedAt'', JStr ''2025-08-28T12:00:00.000Z'')])
   \<and> findArticles example_platform
       (JObj [(''articles'', JArr [JObj article_A, JObj article_B, JObj [(''title'', JStr ''C'')]])])
       (Inr classify_other)
     = findArticles example_platform
         (JObj [(''articles'', JArr [JObj article_A, JObj article_B])]) (Inr classify_other)"
proof -
  let ?kvs = "[(''articles'', JArr [JObj article_A, JObj article_B, JObj [(''title'', JStr ''C'')]])]"
  have h1: "\<not> (truthy (readProp (JObj ?kvs) ''rightWingArticle'')
              \<and> truthy (readProp (JObj ?kvs) ''leftWingArticle''))"
    by simp
  have h2: "map_of ?kvs ''articles''
              = Some (JArr (JObj article_A # JObj article_B # [JObj [(''title'', JStr ''C'')]]))"
    by simp
  have h4: "safeParseJson (JSON_parse example_platform) classify_other
              = Inr (JObj [(''rightWingArticleSource'', JStr ''Fox'')])"
    by (simp add: example_platform_def example_parse_def safeParseJson_def lastIndexOf_def
        substring_def classify_fox_def classify_other_def  untitled_json_def
        dq_def Let_def)
  have h5: "getProp (JObj [(''rightWingArticleSource'', JStr ''Fox'')]) ''rightWingArticleSource''
              = Inr (JStr ''Fox'')"
    by (simp add: getProp_def)
  have h6: "\<not> strict_eq (readProp (JObj article_A) ''source'') (JStr ''Fox'')"
    by (simp add: article_A_def)
  note second = C10_no_match_defaults_to_second [OF h1 h2 refl h4 h5 h6]
  have strings: "\<not> (toStringThrows (readProp (JObj article_A) ''title'')
                    \<or> toStringThrows (readProp (JObj article_A) ''source'')
                    \<or> toStringThrows (readProp (JObj article_B) ''title'')
                    \<or> toStringThrows (readProp (JObj article_B) ''source''))"
    by (simp add: article_A_def article_B_def)
  have a: "findArticles example_platform (JObj ?kvs) (Inr classify_other)
     = Inr (JObj [(''title'', JStr ''B''), (''source'', JStr ''CNN''),
                  (''publishedAt'', JStr ''2025-08-28T12:00:00.000Z'')],
            JObj [(''title'', JStr ''A''), (''source'', JStr ''Fox News''),
                  (''publishedAt'', JStr ''2025-08-28T12:00:00.000Z'')])"
    unfolding second [THEN conjunct1] if_not_P [OF strings]
    by (simp add: normalizeArticle_def example_platform_def article_A_def article_B_def
        js_or_def Let_def)
  have b: "findArticles example_platform (JObj ?kvs) (Inr classify_other)
     = findArticles example_platform
         (JObj [(''articles'', JArr [JObj article_A, JObj article_B])]) (Inr classify_other)"
    using second [THEN conjunct2] by simp
  from a b show ?thesis by (rule conjI)
qed

end
